theory Spec2Isabelle
  imports Complex_Main
begin

section \<open>Data model of \<open>gplately/reconstruction.py\<close>\<close>

text \<open>
  The development embeds the point-reconstruction engine \<open>ReconstructByTopologies\<close> and the two
  collision policies \<open>DefaultCollision\<close> and \<open>ContinentCollision\<close>.

  Python floats are modelled by \<^typ>\<open>real\<close> (no rounding, no NaN), Python integers by
  \<^typ>\<open>int\<close>, list positions by \<^typ>\<open>nat\<close>. The objects of the \<open>pygplates\<close> library are kept
  abstract: \<open>'p\<close> is a point on the sphere, \<open>'r\<close> a finite rotation, \<open>'b\<close> a resolved topology
  (a plate polygon), \<open>'tf\<close> the topology features, \<open>'ps\<close> the internal state of the collision
  callable. Library objects are truthy, so \<open>if not stage_rotation\<close> and \<open>any(curr_points)\<close> only
  test for \<open>None\<close>.
\<close>

datatype error = ValueError string | AttributeError string

text \<open>A Python float that may be \<open>float('inf')\<close> or \<open>float('-inf')\<close>: the bounds of a point's
  valid time range.\<close>

datatype pytime = NegInf | Finite real | PosInf

fun time_le :: "real \<Rightarrow> pytime \<Rightarrow> bool" where
  "time_le t NegInf = False"
| "time_le t (Finite x) = (t \<le> x)"
| "time_le t PosInf = True"

fun time_ge :: "real \<Rightarrow> pytime \<Rightarrow> bool" where
  "time_ge t NegInf = True"
| "time_ge t (Finite x) = (t \<ge> x)"
| "time_ge t PosInf = False"

text \<open>A rotation model: \<open>rotation_model.get_rotation(to_time, plate_id, from_time)\<close>.\<close>

type_synonym 'r rotation_model = "real \<Rightarrow> int \<Rightarrow> real \<Rightarrow> 'r"

text \<open>A collision callable, as the engine calls it:
  \<open>detect_collisions(rotation_model, time, reconstruction_time_interval, prev_point, curr_point,
  prev_topology_plate_id, prev_resolved_plate_boundary, curr_topology_plate_id,
  curr_resolved_plate_boundary)\<close>. The callable owns mutable state (caches, counters), threaded
  through as \<open>'ps\<close>; an exception raised inside it is the \<open>Inl\<close> result.\<close>

type_synonym ('p, 'r, 'b, 'ps) policy =
  "'r rotation_model \<Rightarrow> real \<Rightarrow> real \<Rightarrow> 'p \<Rightarrow> 'p \<Rightarrow> int option \<Rightarrow> 'b option \<Rightarrow> int option \<Rightarrow> 'b option
     \<Rightarrow> 'ps \<Rightarrow> error + (bool \<times> 'ps)"

text \<open>The attributes that \<open>ReconstructByTopologies.__init__\<close> sets; they never change afterwards.\<close>

record ('p, 'r, 'b, 'tf, 'ps) engine =
  rotation_model :: "'r rotation_model"
  topology_features :: 'tf
  reconstruction_begin_time :: real
  reconstruction_end_time :: real
  reconstruction_time_step :: real
  num_times :: int
  reconstruction_time_interval :: real
  last_time_index :: int
  points :: "'p list"
  num_points :: nat
  point_begin_times :: "pytime list"
  point_end_times :: "pytime list"
  point_plate_ids :: "int list"
  detect_collisions :: "('p, 'r, 'b, 'ps) policy option"

section \<open>Construction: \<open>ReconstructByTopologies.__init__\<close>\<close>

text \<open>The time step and the number of sample times (lines 1488 to 1501 of the source):
  the pair \<open>(num_times, reconstruction_time_step)\<close>.\<close>

definition time_steps :: "real \<Rightarrow> real \<Rightarrow> real \<Rightarrow> int \<times> real" where
  "time_steps begin_time end_time time_interval =
     (let time_step = (if begin_time > end_time then - time_interval else time_interval);
          n = 1 + \<lfloor>1 / 1000000 + (end_time - begin_time) / time_step\<rfloor>
      in if n = 1 then (2, end_time - begin_time) else (n, time_step))"

definition mismatch :: "'a list option \<Rightarrow> nat \<Rightarrow> bool" where
  "mismatch xs n = (case xs of None \<Rightarrow> False | Some ys \<Rightarrow> length ys \<noteq> n)"

definition or_default :: "'a list option \<Rightarrow> 'a \<Rightarrow> nat \<Rightarrow> 'a list" where
  "or_default xs d n = (case xs of None \<Rightarrow> replicate n d | Some ys \<Rightarrow> ys)"

definition ReconstructByTopologies_init ::
  "'r rotation_model \<Rightarrow> 'tf \<Rightarrow> real \<Rightarrow> real \<Rightarrow> real \<Rightarrow> 'p list \<Rightarrow> pytime list option \<Rightarrow>
   pytime list option \<Rightarrow> int list option \<Rightarrow> ('p, 'r, 'b, 'ps) policy option \<Rightarrow>
   error + ('p, 'r, 'b, 'tf, 'ps) engine" where
  "ReconstructByTopologies_init rotation_features_or_model topology_feats begin_time end_time time_interval pts
      begin_times end_times plate_ids detect =
     (if time_interval \<le> 0 then
        Inl (ValueError ''reconstruction_time_interval must be positive.'')
      else
        let (n, time_step) = time_steps begin_time end_time time_interval
        in if mismatch begin_times (length pts) then
             Inl (ValueError ''Length of point_begin_times must match length of points.'')
           else if mismatch end_times (length pts) then
             Inl (ValueError ''Length of point_end_times must match length of points.'')
           else if mismatch plate_ids (length pts) then
             Inl (ValueError ''Length of point_plate_ids must match length of points.'')
           else
             Inr \<lparr> rotation_model = rotation_features_or_model,
                   topology_features = topology_feats,
                   reconstruction_begin_time = begin_time,
                   reconstruction_end_time = end_time,
                   reconstruction_time_step = time_step,
                   num_times = n,
                   reconstruction_time_interval = \<bar>time_step\<bar>,
                   last_time_index = n - 1,
                   points = pts,
                   num_points = length pts,
                   point_begin_times = or_default begin_times PosInf (length pts),
                   point_end_times = or_default end_times NegInf (length pts),
                   point_plate_ids = or_default plate_ids 0 (length pts),
                   detect_collisions = detect \<rparr>)"

text \<open>The window test of \<open>_activate_deactivate_points\<close>:
  \<open>current_time <= point_begin_times[i] and current_time >= point_end_times[i]\<close>.\<close>

definition in_window :: "('p, 'r, 'b, 'tf, 'ps) engine \<Rightarrow> real \<Rightarrow> nat \<Rightarrow> bool" where
  "in_window e current_time point_index =
     (time_le current_time (point_begin_times e ! point_index) \<and>
      time_ge current_time (point_end_times e ! point_index))"

section \<open>Engine state and the library it calls\<close>

text \<open>The attributes that \<open>begin_reconstruction\<close> creates and every step mutates, together with
  the state of the collision callable. (\<open>in_continent_indices\<close> and \<open>in_continent_points\<close> are
  created as lists of \<open>None\<close> and never written again; they are left out.) Python raises
  \<open>IndexError\<close> on a list position out of range; every list here has \<open>num_points\<close> entries
  and is only read and written at positions below \<open>num_points\<close>.\<close>

record ('p, 'b, 'ps) state =
  current_time_index :: int
  prev_points :: "'p option list"
  curr_points :: "'p option list"
  next_points :: "'p option list"
  point_has_been_activated :: "bool list"
  num_activated_points :: nat
  prev_topology_plate_ids :: "int option list"
  curr_topology_plate_ids :: "int option list"
  prev_resolved_plate_boundaries :: "'b option list"
  curr_resolved_plate_boundaries :: "'b option list"
  deletedpoints :: "nat list"
  collision_state :: 'ps

text \<open>The functions of \<open>pygplates\<close> and \<open>ptt\<close> that the engine calls:
  \<open>stage_rotation * curr_point\<close>; \<open>pygplates.resolve_topologies(topology_features,
  rotation_model, resolved_topologies, current_time)\<close>; the entry that
  \<open>ptt.utils.points_in_polygons.find_polygons\<close> returns for one point (the resolved topology whose
  boundary contains it, or \<open>None\<close>); and
  \<open>resolved_topology.get_feature().get_reconstruction_plate_id()\<close>.\<close>

record ('p, 'r, 'b, 'tf) pygplates =
  rotate :: "'r \<Rightarrow> 'p \<Rightarrow> 'p"
  resolve_topologies :: "'tf \<Rightarrow> 'r rotation_model \<Rightarrow> real \<Rightarrow> 'b list"
  find_polygon :: "'p \<Rightarrow> 'b list \<Rightarrow> 'b option"
  get_reconstruction_plate_id :: "'b \<Rightarrow> int"

definition get_current_time :: "('p, 'r, 'b, 'tf, 'ps) engine \<Rightarrow> ('p, 'b, 'ps) state \<Rightarrow> real" where
  "get_current_time e s =
     reconstruction_begin_time e + of_int (current_time_index s) * reconstruction_time_step e"

definition get_all_current_points :: "('p, 'b, 'ps) state \<Rightarrow> 'p option list" where
  "get_all_current_points s = curr_points s"

definition get_active_current_points :: "('p, 'b, 'ps) state \<Rightarrow> 'p list" where
  "get_active_current_points s = [point. Some point \<leftarrow> get_all_current_points s]"

section \<open>\<open>_activate_deactivate_points\<close>\<close>

text \<open>The body of the loop over \<open>range(num_points)\<close>, for one \<open>point_index\<close>.\<close>

definition activate_deactivate_point ::
  "('p, 'r, 'b, 'tf, 'ps) engine \<Rightarrow> real \<Rightarrow> nat \<Rightarrow> ('p, 'b, 'ps) state \<Rightarrow> ('p, 'b, 'ps) state" where
  "activate_deactivate_point e current_time point_index s =
     (if curr_points s ! point_index = None then
        if \<not> point_has_been_activated s ! point_index then
          if in_window e current_time point_index then
            s\<lparr> curr_points := (curr_points s)[point_index := Some (points e ! point_index)],
               point_has_been_activated := (point_has_been_activated s)[point_index := True],
               num_activated_points := num_activated_points s + 1 \<rparr>
          else s
        else s
      else
        if \<not> in_window e current_time point_index then
          s\<lparr> curr_points := (curr_points s)[point_index := None] \<rparr>
        else s)"

definition activate_deactivate_points ::
  "('p, 'r, 'b, 'tf, 'ps) engine \<Rightarrow> ('p, 'b, 'ps) state \<Rightarrow> ('p, 'b, 'ps) state" where
  "activate_deactivate_points e s =
     fold (activate_deactivate_point e (get_current_time e s)) [0..<num_points e] s"

section \<open>\<open>_find_resolved_topologies_containing_points\<close>\<close>

text \<open>The class attribute \<open>use_plate_partitioner\<close> is \<open>False\<close>, so the branch through
  \<open>find_polygons\<close> is the one that runs. The first loop collects the active points and, for each
  position, where its point went: \<open>(curr_valid_points_indices, curr_valid_points)\<close>.\<close>

fun valid_points :: "'p option list \<Rightarrow> 'p list \<Rightarrow> nat option list \<times> 'p list" where
  "valid_points [] curr_valid_points = ([], curr_valid_points)"
| "valid_points (None # rest) curr_valid_points =
     (let (indices, valid) = valid_points rest curr_valid_points in (None # indices, valid))"
| "valid_points (Some curr_point # rest) curr_valid_points =
     (let (indices, valid) = valid_points rest (curr_valid_points @ [curr_point])
      in (Some (length curr_valid_points) # indices, valid))"

text \<open>The body of the second loop, for one \<open>point_index\<close>.\<close>

definition resolve_point ::
  "('p, 'r, 'b, 'tf) pygplates \<Rightarrow> 'b option list \<Rightarrow> nat option list \<Rightarrow> nat \<Rightarrow>
   ('p, 'b, 'ps) state \<Rightarrow> ('p, 'b, 'ps) state" where
  "resolve_point lib containing curr_valid_points_indices point_index s =
     (case curr_points s ! point_index of
        None \<Rightarrow>
          s\<lparr> curr_topology_plate_ids := (curr_topology_plate_ids s)[point_index := None],
             curr_resolved_plate_boundaries :=
               (curr_resolved_plate_boundaries s)[point_index := None] \<rparr>
      | Some curr_point \<Rightarrow>
          let curr_polygon = containing ! the (curr_valid_points_indices ! point_index);
              s1 = s\<lparr> curr_resolved_plate_boundaries :=
                        (curr_resolved_plate_boundaries s)[point_index := curr_polygon] \<rparr>
          in (case curr_polygon of
                None \<Rightarrow>
                  s1\<lparr> curr_topology_plate_ids := (curr_topology_plate_ids s1)[point_index := None] \<rparr>
              | Some polygon \<Rightarrow>
                  s1\<lparr> curr_topology_plate_ids := (curr_topology_plate_ids s1)
                        [point_index := Some (get_reconstruction_plate_id lib polygon)] \<rparr>))"

definition find_resolved_topologies_containing_points ::
  "('p, 'r, 'b, 'tf) pygplates \<Rightarrow> ('p, 'r, 'b, 'tf, 'ps) engine \<Rightarrow> ('p, 'b, 'ps) state \<Rightarrow>
   ('p, 'b, 'ps) state" where
  "find_resolved_topologies_containing_points lib e s =
     (let current_time = get_current_time e s;
          resolved_topologies =
            resolve_topologies lib (topology_features e) (rotation_model e) current_time;
          (curr_valid_points_indices, curr_valid_points) = valid_points (curr_points s) [];
          containing = map (\<lambda>point. find_polygon lib point resolved_topologies) curr_valid_points
      in fold (resolve_point lib containing curr_valid_points_indices)
           [0..<length (curr_points s)] s)"

section \<open>\<open>reconstruct_to_next_time\<close>\<close>

text \<open>The body of the first loop, for one \<open>point_index\<close>, on the pair of \<open>next_points\<close> and the
  per-step cache \<open>reconstruct_stage_rotation_dict\<close>. Where the current point has no topology
  plate id the source assigns the point's own plate id to \<open>curr_plate_id\<close> and then executes
  \<open>continue\<close>: nothing is written to \<open>next_points[point_index]\<close>.\<close>

definition reconstruct_point ::
  "('p, 'r, 'b, 'tf) pygplates \<Rightarrow> ('p, 'r, 'b, 'tf, 'ps) engine \<Rightarrow> ('p, 'b, 'ps) state \<Rightarrow> real \<Rightarrow>
   nat \<Rightarrow> 'p option list \<times> (int \<rightharpoonup> 'r) \<Rightarrow> 'p option list \<times> (int \<rightharpoonup> 'r)" where
  "reconstruct_point lib e s current_time point_index acc =
     (case acc of (next_pts, reconstruct_stage_rotation_dict) \<Rightarrow>
        (case curr_points s ! point_index of
           None \<Rightarrow> (next_pts[point_index := None], reconstruct_stage_rotation_dict)
         | Some curr_point \<Rightarrow>
             (case curr_topology_plate_ids s ! point_index of
                None \<Rightarrow>
                  (let curr_plate_id = point_plate_ids e ! point_index
                   in (next_pts, reconstruct_stage_rotation_dict))
              | Some curr_plate_id \<Rightarrow>
                  (case reconstruct_stage_rotation_dict curr_plate_id of
                     Some stage_rotation \<Rightarrow>
                       (next_pts[point_index := Some (rotate lib stage_rotation curr_point)],
                        reconstruct_stage_rotation_dict)
                   | None \<Rightarrow>
                       (let stage_rotation =
                              rotation_model e (current_time + reconstruction_time_step e)
                                curr_plate_id current_time
                        in (next_pts[point_index := Some (rotate lib stage_rotation curr_point)],
                            reconstruct_stage_rotation_dict(curr_plate_id \<mapsto> stage_rotation)))))))"

text \<open>The body of the collision loop, for one \<open>point_index\<close>; an exception of the callable
  ends the loop.\<close>

definition detect_collision_at ::
  "('p, 'r, 'b, 'tf, 'ps) engine \<Rightarrow> ('p, 'r, 'b, 'ps) policy \<Rightarrow> real \<Rightarrow> nat \<Rightarrow>
   error + ('p, 'b, 'ps) state \<Rightarrow> error + ('p, 'b, 'ps) state" where
  "detect_collision_at e detect current_time point_index acc =
     (case acc of
        Inl err \<Rightarrow> Inl err
      | Inr s \<Rightarrow>
          (case prev_points s ! point_index of
             None \<Rightarrow> Inr s
           | Some prev_point \<Rightarrow>
               (case curr_points s ! point_index of
                  None \<Rightarrow> Inr s
                | Some curr_point \<Rightarrow>
                    (case detect (rotation_model e) current_time (reconstruction_time_interval e)
                            prev_point curr_point
                            (prev_topology_plate_ids s ! point_index)
                            (prev_resolved_plate_boundaries s ! point_index)
                            (curr_topology_plate_ids s ! point_index)
                            (curr_resolved_plate_boundaries s ! point_index)
                            (collision_state s) of
                       Inl err \<Rightarrow> Inl err
                     | Inr (collided, ps) \<Rightarrow>
                         if collided then
                           Inr (s\<lparr> curr_points := (curr_points s)[point_index := None],
                                   deletedpoints := deletedpoints s @ [point_index],
                                   collision_state := ps \<rparr>)
                         else Inr (s\<lparr> collision_state := ps \<rparr>)))))"

text \<open>The two tests that make \<open>reconstruct_to_next_time\<close> return \<open>False\<close>.\<close>

definition finished :: "('p, 'r, 'b, 'tf, 'ps) engine \<Rightarrow> ('p, 'b, 'ps) state \<Rightarrow> bool" where
  "finished e s =
     (current_time_index s = last_time_index e \<or>
      (num_activated_points s = num_points e \<and> \<not> list_ex (\<lambda>point. point \<noteq> None) (curr_points s)))"

definition reconstruct_to_next_time ::
  "('p, 'r, 'b, 'tf) pygplates \<Rightarrow> ('p, 'r, 'b, 'tf, 'ps) engine \<Rightarrow> ('p, 'b, 'ps) state \<Rightarrow>
   error + (bool \<times> ('p, 'b, 'ps) state)" where
  "reconstruct_to_next_time lib e s =
     (if current_time_index s = last_time_index e then Inr (False, s)
      else if num_activated_points s = num_points e \<and>
              \<not> list_ex (\<lambda>point. point \<noteq> None) (curr_points s) then Inr (False, s)
      else
        let current_time = get_current_time e s;
            next_pts = fst (fold (reconstruct_point lib e s current_time) [0..<num_points e]
                              (next_points s, Map.empty));
            s1 = s\<lparr> prev_points := curr_points s,
                    curr_points := next_pts,
                    next_points := prev_points s,
                    prev_topology_plate_ids := curr_topology_plate_ids s,
                    curr_topology_plate_ids := prev_topology_plate_ids s,
                    prev_resolved_plate_boundaries := curr_resolved_plate_boundaries s,
                    curr_resolved_plate_boundaries := prev_resolved_plate_boundaries s,
                    current_time_index := current_time_index s + 1 \<rparr>;
            s2 = activate_deactivate_points e s1;
            s3 = find_resolved_topologies_containing_points lib e s2
        in (case detect_collisions e of
              None \<Rightarrow> Inr (True, s3)
            | Some detect \<Rightarrow>
                (case fold (detect_collision_at e detect (get_current_time e s3))
                        [0..<num_points e] (Inr s3) of
                   Inl err \<Rightarrow> Inl err
                 | Inr s4 \<Rightarrow> Inr (True, s4))))"

section \<open>\<open>begin_reconstruction\<close> and \<open>reconstruct\<close>\<close>

definition begin_reconstruction ::
  "('p, 'r, 'b, 'tf) pygplates \<Rightarrow> ('p, 'r, 'b, 'tf, 'ps) engine \<Rightarrow> 'ps \<Rightarrow> ('p, 'b, 'ps) state" where
  "begin_reconstruction lib e ps =
     find_resolved_topologies_containing_points lib e
       (activate_deactivate_points e
          \<lparr> current_time_index = 0,
            prev_points = replicate (num_points e) None,
            curr_points = replicate (num_points e) None,
            next_points = replicate (num_points e) None,
            point_has_been_activated = replicate (num_points e) False,
            num_activated_points = 0,
            prev_topology_plate_ids = replicate (num_points e) None,
            curr_topology_plate_ids = replicate (num_points e) None,
            prev_resolved_plate_boundaries = replicate (num_points e) None,
            curr_resolved_plate_boundaries = replicate (num_points e) None,
            deletedpoints = [],
            collision_state = ps \<rparr>)"

text \<open>The loop \<open>while self.reconstruct_to_next_time(): pass\<close>. The result is \<open>None\<close> when the
  loop never ends, \<open>Some (Inl err)\<close> when the collision callable raised, and otherwise the state
  in which \<open>reconstruct_to_next_time\<close> returned \<open>False\<close>.\<close>

partial_function (option) reconstruct_loop ::
  "('p, 'r, 'b, 'tf) pygplates \<Rightarrow> ('p, 'r, 'b, 'tf, 'ps) engine \<Rightarrow> ('p, 'b, 'ps) state \<Rightarrow>
   (error + ('p, 'b, 'ps) state) option" where
  "reconstruct_loop lib e s =
     (case reconstruct_to_next_time lib e s of
        Inl err \<Rightarrow> Some (Inl err)
      | Inr (progress, s') \<Rightarrow> if progress then reconstruct_loop lib e s' else Some (Inr s'))"

definition reconstruct ::
  "('p, 'r, 'b, 'tf) pygplates \<Rightarrow> ('p, 'r, 'b, 'tf, 'ps) engine \<Rightarrow> 'ps \<Rightarrow> (error + 'p list) option" where
  "reconstruct lib e ps =
     (case reconstruct_loop lib e (begin_reconstruction lib e ps) of
        None \<Rightarrow> None
      | Some (Inl err) \<Rightarrow> Some (Inl err)
      | Some (Inr s) \<Rightarrow> Some (Inr (get_active_current_points s)))"

text \<open>The state after \<open>k\<close> calls of \<open>reconstruct_to_next_time\<close>.\<close>

fun steps ::
  "nat \<Rightarrow> ('p, 'r, 'b, 'tf) pygplates \<Rightarrow> ('p, 'r, 'b, 'tf, 'ps) engine \<Rightarrow> ('p, 'b, 'ps) state \<Rightarrow>
   error + ('p, 'b, 'ps) state" where
  "steps 0 lib e s = Inr s"
| "steps (Suc k) lib e s =
     (case reconstruct_to_next_time lib e s of
        Inl err \<Rightarrow> Inl err
      | Inr (progress, s') \<Rightarrow> steps k lib e s')"

section \<open>\<open>DefaultCollision\<close>\<close>

text \<open>The attributes of a \<open>DefaultCollision\<close> object. The dictionary built by
  \<open>dict(feature_specific_collision_parameters)\<close> is kept as the list of pairs it is built from:
  it is empty exactly when the list is, and a later pair overrides an earlier one with the same
  feature type.\<close>

record ('r, 'ft) default_collision =
  feature_specific_collision_parameters :: "('ft \<times> real \<times> real) list"
  global_collision_parameters :: "real \<times> real"
  velocity_stage_rotation_dict :: "int \<rightharpoonup> 'r"
  velocity_stage_rotation_time :: "real option"

definition DEFAULT_GLOBAL_COLLISION_PARAMETERS :: "real \<times> real" where
  "DEFAULT_GLOBAL_COLLISION_PARAMETERS = (7, 10)"

definition DefaultCollision_init ::
  "real \<times> real \<Rightarrow> ('ft \<times> real \<times> real) list option \<Rightarrow> ('r, 'ft) default_collision" where
  "DefaultCollision_init global_params feature_specific =
     \<lparr> feature_specific_collision_parameters =
         (case feature_specific of None \<Rightarrow> [] | Some ps \<Rightarrow> ps),
       global_collision_parameters = global_params,
       velocity_stage_rotation_dict = Map.empty,
       velocity_stage_rotation_time = None \<rparr>"

definition dict_get :: "('k \<times> 'v) list \<Rightarrow> 'k \<Rightarrow> 'v \<Rightarrow> 'v" where
  "dict_get d k dflt = (case map_of (rev d) k of None \<Rightarrow> dflt | Some v \<Rightarrow> v)"

text \<open>The functions of \<open>pygplates\<close> that the collision test calls:
  \<open>calculate_velocities((point,), rotation, 1, kms_per_my)[0]\<close>, the difference of two
  \<open>Vector3D\<close> and \<open>get_magnitude\<close>; the sub-segments of a resolved topology, their feature
  type and geometry, the boundary polygon of a resolved topology; the distance in radians between
  a point and a geometry; \<open>Earth.equatorial_radius_in_kms\<close>.\<close>

record ('p, 'r, 'b, 'seg, 'g, 'ft, 'v) pygplates_geometry =
  calculate_velocity :: "'p \<Rightarrow> 'r \<Rightarrow> 'v"
  vector_minus :: "'v \<Rightarrow> 'v \<Rightarrow> 'v"
  get_magnitude :: "'v \<Rightarrow> real"
  get_boundary_sub_segments :: "'b \<Rightarrow> 'seg list"
  get_feature_type :: "'seg \<Rightarrow> 'ft"
  get_resolved_geometry :: "'seg \<Rightarrow> 'g"
  get_resolved_boundary :: "'b \<Rightarrow> 'g"
  geodesic_distance :: "'p \<Rightarrow> 'g \<Rightarrow> real"
  equatorial_radius_in_kms :: real

text \<open>\<open>pygplates.GeometryOnSphere.distance(point, geometry, distance_threshold_radians)\<close>:
  the distance, or \<open>None\<close> when the distance exceeds the threshold.\<close>

definition GeometryOnSphere_distance ::
  "('p, 'r, 'b, 'seg, 'g, 'ft, 'v) pygplates_geometry \<Rightarrow> 'p \<Rightarrow> 'g \<Rightarrow> real \<Rightarrow> real option" where
  "GeometryOnSphere_distance geo point geometry distance_threshold_radians =
     (if geodesic_distance geo point geometry \<le> distance_threshold_radians
      then Some (geodesic_distance geo point geometry) else None)"

definition detect_collision_using_collision_parameters ::
  "('p, 'r, 'b, 'seg, 'g, 'ft, 'v) pygplates_geometry \<Rightarrow> real \<Rightarrow> real \<Rightarrow> 'p \<Rightarrow> 'g \<Rightarrow> real \<Rightarrow>
   real \<Rightarrow> bool" where
  "detect_collision_using_collision_parameters geo time_interval delta_velocity_magnitude
      prev_point prev_boundary_geometry threshold_velocity_delta
      threshold_distance_to_boundary_per_my =
     (if delta_velocity_magnitude > threshold_velocity_delta then
        let distance_threshold_radians =
              (threshold_distance_to_boundary_per_my + delta_velocity_magnitude)
                * time_interval / equatorial_radius_in_kms geo
        in if GeometryOnSphere_distance geo prev_point prev_boundary_geometry
                distance_threshold_radians \<noteq> None
           then True else False
      else False)"

text \<open>\<open>velocity_stage_rotation_dict.get(plate_id)\<close>, filled from the rotation model when the
  plate id is not cached.\<close>

definition velocity_stage_rotation ::
  "'r rotation_model \<Rightarrow> real \<Rightarrow> int \<Rightarrow> ('r, 'ft) default_collision \<Rightarrow>
   'r \<times> ('r, 'ft) default_collision" where
  "velocity_stage_rotation rot_model time plate_id self =
     (case velocity_stage_rotation_dict self plate_id of
        Some stage_rotation \<Rightarrow> (stage_rotation, self)
      | None \<Rightarrow>
          (let stage_rotation = rot_model (time + 1) plate_id time
           in (stage_rotation,
               self\<lparr> velocity_stage_rotation_dict :=
                       (velocity_stage_rotation_dict self)(plate_id \<mapsto> stage_rotation) \<rparr>)))"

text \<open>The loop over the sub-segments of the previous boundary, left at the first collision.\<close>

fun sub_segment_collision ::
  "('p, 'r, 'b, 'seg, 'g, 'ft, 'v) pygplates_geometry \<Rightarrow> ('r, 'ft) default_collision \<Rightarrow> real \<Rightarrow>
   real \<Rightarrow> 'p \<Rightarrow> 'seg list \<Rightarrow> bool" where
  "sub_segment_collision geo self time_interval delta_velocity_magnitude prev_point [] = False"
| "sub_segment_collision geo self time_interval delta_velocity_magnitude prev_point
      (prev_boundary_sub_segment # rest) =
     (case dict_get (feature_specific_collision_parameters self)
             (get_feature_type geo prev_boundary_sub_segment)
             (global_collision_parameters self) of
        (threshold_velocity_delta, threshold_distance_to_boundary_per_my) \<Rightarrow>
          if detect_collision_using_collision_parameters geo time_interval
               delta_velocity_magnitude prev_point
               (get_resolved_geometry geo prev_boundary_sub_segment)
               threshold_velocity_delta threshold_distance_to_boundary_per_my
          then True
          else sub_segment_collision geo self time_interval delta_velocity_magnitude prev_point
                 rest)"

text \<open>\<open>DefaultCollision.__call__\<close>. A method call on a previous boundary that is \<open>None\<close> raises
  \<open>AttributeError\<close>; the arguments of \<open>_detect_collision_using_collision_parameters\<close> are
  evaluated before the velocity test inside it.\<close>

definition DefaultCollision_call ::
  "('p, 'r, 'b, 'seg, 'g, 'ft, 'v) pygplates_geometry \<Rightarrow>
   ('p, 'r, 'b, ('r, 'ft) default_collision) policy" where
  "DefaultCollision_call geo rot_model time time_interval prev_point curr_point
      prev_topology_plate_id prev_resolved_plate_boundary
      curr_topology_plate_id curr_resolved_plate_boundary self =
     (case (prev_topology_plate_id, curr_topology_plate_id) of
        (Some prev_plate_id, Some curr_plate_id) \<Rightarrow>
          if curr_plate_id \<noteq> prev_plate_id then
            let self1 = (if Some time \<noteq> velocity_stage_rotation_time self
                         then self\<lparr> velocity_stage_rotation_dict := Map.empty,
                                    velocity_stage_rotation_time := Some time \<rparr>
                         else self);
                (prev_location_velocity_stage_rotation, self2) =
                   velocity_stage_rotation rot_model time prev_plate_id self1;
                (curr_location_velocity_stage_rotation, self3) =
                   velocity_stage_rotation rot_model time curr_plate_id self2;
                prev_location_velocity =
                   calculate_velocity geo curr_point prev_location_velocity_stage_rotation;
                curr_location_velocity =
                   calculate_velocity geo curr_point curr_location_velocity_stage_rotation;
                delta_velocity = vector_minus geo curr_location_velocity prev_location_velocity;
                delta_velocity_magnitude = get_magnitude geo delta_velocity
            in (case prev_resolved_plate_boundary of
                  None \<Rightarrow> Inl (AttributeError ''NoneType object has no such attribute'')
                | Some prev_boundary \<Rightarrow>
                    if feature_specific_collision_parameters self3 \<noteq> [] then
                      Inr (sub_segment_collision geo self3 time_interval
                             delta_velocity_magnitude prev_point
                             (get_boundary_sub_segments geo prev_boundary), self3)
                    else
                      (case global_collision_parameters self3 of
                         (threshold_velocity_delta, threshold_distance_to_boundary_per_my) \<Rightarrow>
                           Inr (detect_collision_using_collision_parameters geo time_interval
                                  delta_velocity_magnitude prev_point
                                  (get_resolved_boundary geo prev_boundary)
                                  threshold_velocity_delta threshold_distance_to_boundary_per_my,
                                self3)))
          else Inr (False, self)
      | _ \<Rightarrow> Inr (False, self))"

section \<open>\<open>ContinentCollision\<close>\<close>

text \<open>The attributes of a \<open>ContinentCollision\<close> object that change. \<open>f\<close> (the interpolator,
  a function of longitude and latitude) and \<open>continent_deletion_count\<close> do not exist before the
  first grid is loaded; reading a missing attribute raises \<open>AttributeError\<close>. The state of
  the chained callable is carried along.\<close>

record 'cs continent_collision =
  grid_time :: "real option"
  f :: "(real \<Rightarrow> real \<Rightarrow> real) option"
  continent_deletion_count :: "int option"
  chain_state :: 'cs

text \<open>What the policy needs from outside: \<open>read_netcdf_grid\<close> on the file name
  \<open>grd_output_dir.format(time)\<close> followed by \<open>RegularGridInterpolator(..., method='nearest')\<close>,
  which gives the nearest-neighbour sample at a longitude and latitude, or raises when the grid
  cannot be read; and \<open>point.to_lat_lon()\<close>.\<close>

record 'p raster_library =
  read_netcdf_grid :: "string \<Rightarrow> real \<Rightarrow> error + (real \<Rightarrow> real \<Rightarrow> real)"
  to_lat_lon :: "'p \<Rightarrow> real \<times> real"

definition ContinentCollision_init :: "'cs \<Rightarrow> 'cs continent_collision" where
  "ContinentCollision_init chained =
     \<lparr> grid_time = None, f = None, continent_deletion_count = None, chain_state = chained \<rparr>"

text \<open>The first statement of \<open>ContinentCollision.__call__\<close>: load the grid of a new time.\<close>

definition load_grid ::
  "'p raster_library \<Rightarrow> string \<Rightarrow> real \<Rightarrow> 'cs continent_collision \<Rightarrow>
   error + 'cs continent_collision" where
  "load_grid raster grd_output_dir time self =
     (if Some time \<noteq> grid_time self then
        (case read_netcdf_grid raster grd_output_dir time of
           Inl err \<Rightarrow> Inl err
         | Inr interpolator \<Rightarrow>
             Inr (self\<lparr> grid_time := Some time,
                       continent_deletion_count := Some 0,
                       f := Some interpolator \<rparr>))
      else Inr self)"

definition ContinentCollision_call ::
  "'p raster_library \<Rightarrow> string \<Rightarrow> ('p, 'r, 'b, 'cs) policy option \<Rightarrow>
   ('p, 'r, 'b, 'cs continent_collision) policy" where
  "ContinentCollision_call raster grd_output_dir chain_collision_detection
      rot_model time time_interval prev_point curr_point
      prev_topology_plate_id prev_resolved_plate_boundary
      curr_topology_plate_id curr_resolved_plate_boundary self =
     (case load_grid raster grd_output_dir time self of
        Inl err \<Rightarrow> Inl err
      | Inr self1 \<Rightarrow>
          (case f self1 of
             None \<Rightarrow> Inl (AttributeError ''ContinentCollision object has no attribute f'')
           | Some interpolator \<Rightarrow>
               if interpolator (snd (to_lat_lon raster curr_point))
                    (fst (to_lat_lon raster curr_point)) > 1 / 2 then
                 (case continent_deletion_count self1 of
                    None \<Rightarrow>
                      Inl (AttributeError
                        ''ContinentCollision object has no attribute continent_deletion_count'')
                  | Some n \<Rightarrow> Inr (True, self1\<lparr> continent_deletion_count := Some (n + 1) \<rparr>))
               else
                 (case chain_collision_detection of
                    Some chained \<Rightarrow>
                      (case chained rot_model time time_interval prev_point curr_point
                              prev_topology_plate_id prev_resolved_plate_boundary
                              curr_topology_plate_id curr_resolved_plate_boundary
                              (chain_state self1) of
                         Inl err \<Rightarrow> Inl err
                       | Inr (collided, cs) \<Rightarrow> Inr (collided, self1\<lparr> chain_state := cs \<rparr>))
                  | None \<Rightarrow> Inr (False, self1))))"

section \<open>Example inputs\<close>

text \<open>A one-dimensional world for running the definitions: a point is an integer position, a
  rotation is a shift, a resolved topology is a plate id with the interval of positions that it
  covers, and the topology features give the resolved topologies of each time.\<close>

type_synonym example_plate = "int \<times> int \<times> int"

definition example_library :: "(int, int, example_plate, real \<Rightarrow> example_plate list) pygplates" where
  "example_library =
     \<lparr> rotate = (\<lambda>stage_rotation point. point + stage_rotation),
       resolve_topologies = (\<lambda>features rot_model time. features time),
       find_polygon = (\<lambda>point. find (\<lambda>(plate_id, lo, hi). lo \<le> point \<and> point \<le> hi)),
       get_reconstruction_plate_id = fst \<rparr>"

text \<open>Plate 101 moves by 1 per step, every other plate by 5.\<close>

definition example_rotation_model :: "int rotation_model" where
  "example_rotation_model = (\<lambda>to_time plate_id from_time. if plate_id = 101 then 1 else 5)"

section \<open>Well-formed states and what each loop leaves unchanged\<close>

text \<open>Every per-point list of the state has one entry per point.\<close>

definition wf_state :: "('p, 'r, 'b, 'tf, 'ps) engine \<Rightarrow> ('p, 'b, 'ps) state \<Rightarrow> bool" where
  "wf_state e s =
     (length (prev_points s) = num_points e \<and>
      length (curr_points s) = num_points e \<and>
      length (next_points s) = num_points e \<and>
      length (point_has_been_activated s) = num_points e \<and>
      length (prev_topology_plate_ids s) = num_points e \<and>
      length (curr_topology_plate_ids s) = num_points e \<and>
      length (prev_resolved_plate_boundaries s) = num_points e \<and>
      length (curr_resolved_plate_boundaries s) = num_points e)"

text \<open>Every per-point list of the engine has one entry per point, and there are at least two
  sample times.\<close>

definition wf_engine :: "('p, 'r, 'b, 'tf, 'ps) engine \<Rightarrow> bool" where
  "wf_engine e =
     (length (points e) = num_points e \<and>
      length (point_begin_times e) = num_points e \<and>
      length (point_end_times e) = num_points e \<and>
      length (point_plate_ids e) = num_points e \<and>
      1 \<le> last_time_index e)"

text \<open>The attributes that \<open>_activate_deactivate_points\<close> does not assign.\<close>

definition activation_frame :: "('p, 'b, 'ps) state \<Rightarrow> ('p, 'b, 'ps) state \<Rightarrow> bool" where
  "activation_frame s s' =
     (current_time_index s' = current_time_index s \<and>
      prev_points s' = prev_points s \<and>
      next_points s' = next_points s \<and>
      prev_topology_plate_ids s' = prev_topology_plate_ids s \<and>
      curr_topology_plate_ids s' = curr_topology_plate_ids s \<and>
      prev_resolved_plate_boundaries s' = prev_resolved_plate_boundaries s \<and>
      curr_resolved_plate_boundaries s' = curr_resolved_plate_boundaries s \<and>
      deletedpoints s' = deletedpoints s \<and>
      collision_state s' = collision_state s)"

text \<open>The attributes that \<open>_find_resolved_topologies_containing_points\<close> does not assign.\<close>

definition topology_frame :: "('p, 'b, 'ps) state \<Rightarrow> ('p, 'b, 'ps) state \<Rightarrow> bool" where
  "topology_frame s s' =
     (current_time_index s' = current_time_index s \<and>
      prev_points s' = prev_points s \<and>
      curr_points s' = curr_points s \<and>
      next_points s' = next_points s \<and>
      point_has_been_activated s' = point_has_been_activated s \<and>
      num_activated_points s' = num_activated_points s \<and>
      prev_topology_plate_ids s' = prev_topology_plate_ids s \<and>
      prev_resolved_plate_boundaries s' = prev_resolved_plate_boundaries s \<and>
      deletedpoints s' = deletedpoints s \<and>
      collision_state s' = collision_state s)"

text \<open>The attributes that the collision loop does not assign.\<close>

definition collision_frame :: "('p, 'b, 'ps) state \<Rightarrow> ('p, 'b, 'ps) state \<Rightarrow> bool" where
  "collision_frame s s' =
     (current_time_index s' = current_time_index s \<and>
      prev_points s' = prev_points s \<and>
      next_points s' = next_points s \<and>
      point_has_been_activated s' = point_has_been_activated s \<and>
      num_activated_points s' = num_activated_points s \<and>
      prev_topology_plate_ids s' = prev_topology_plate_ids s \<and>
      curr_topology_plate_ids s' = curr_topology_plate_ids s \<and>
      prev_resolved_plate_boundaries s' = prev_resolved_plate_boundaries s \<and>
      curr_resolved_plate_boundaries s' = curr_resolved_plate_boundaries s)"

text \<open>The state of \<open>reconstruct_to_next_time\<close> after the first loop, the rotation of the
  buffers and the increment of the time index.\<close>

definition rotate_buffers ::
  "('p, 'r, 'b, 'tf) pygplates \<Rightarrow> ('p, 'r, 'b, 'tf, 'ps) engine \<Rightarrow> ('p, 'b, 'ps) state \<Rightarrow>
   ('p, 'b, 'ps) state" where
  "rotate_buffers lib e s =
     s\<lparr> prev_points := curr_points s,
        curr_points := fst (fold (reconstruct_point lib e s (get_current_time e s))
                              [0..<num_points e] (next_points s, Map.empty)),
        next_points := prev_points s,
        prev_topology_plate_ids := curr_topology_plate_ids s,
        curr_topology_plate_ids := prev_topology_plate_ids s,
        prev_resolved_plate_boundaries := curr_resolved_plate_boundaries s,
        curr_resolved_plate_boundaries := prev_resolved_plate_boundaries s,
        current_time_index := current_time_index s + 1 \<rparr>"

text \<open>The positions appended to \<open>deletedpoints\<close> between two states: the points that the
  collision callable consumed in the step from \<open>s\<close> to \<open>s'\<close>.\<close>

definition consumed_in_step :: "('p, 'b, 'ps) state \<Rightarrow> ('p, 'b, 'ps) state \<Rightarrow> nat list" where
  "consumed_in_step s s' = drop (length (deletedpoints s)) (deletedpoints s')"

text \<open>What holds of every state that the engine reaches: a point that is present in one of
  the three buffers has been activated, and a point recorded in \<open>deletedpoints\<close> has been
  activated and is not current.\<close>

definition engine_invariant :: "('p, 'r, 'b, 'tf, 'ps) engine \<Rightarrow> ('p, 'b, 'ps) state \<Rightarrow> bool" where
  "engine_invariant e s =
     (wf_state e s \<and>
      (\<forall>i < num_points e.
         (prev_points s ! i \<noteq> None \<or> curr_points s ! i \<noteq> None \<or> next_points s ! i \<noteq> None)
           \<longrightarrow> point_has_been_activated s ! i) \<and>
      (\<forall>i \<in> set (deletedpoints s).
         i < num_points e \<and> curr_points s ! i = None \<and> point_has_been_activated s ! i))"

text \<open>The three attributes of the current slot of every point, side by side.\<close>

definition current_slots :: "('p, 'b, 'ps) state \<Rightarrow> ('p option \<times> int option \<times> 'b option) list" where
  "current_slots s =
     zip (curr_points s) (zip (curr_topology_plate_ids s) (curr_resolved_plate_boundaries s))"

text \<open>One point at position 0 with plate id 101, from 10 Ma to 0 Ma in steps of 1 My; this is
  what \<open>ReconstructByTopologies_init\<close> returns for these arguments (lemma
  \<open>example_engine_init\<close>).\<close>

definition example_engine ::
  "(real \<Rightarrow> example_plate list) \<Rightarrow> (int, int, example_plate, 'ps) policy option \<Rightarrow>
   (int, int, example_plate, real \<Rightarrow> example_plate list, 'ps) engine" where
  "example_engine topologies detect =
     \<lparr> rotation_model = example_rotation_model,
       topology_features = topologies,
       reconstruction_begin_time = 10,
       reconstruction_end_time = 0,
       reconstruction_time_step = - 1,
       num_times = 11,
       reconstruction_time_interval = 1,
       last_time_index = 10,
       points = [0],
       num_points = 1,
       point_begin_times = [PosInf],
       point_end_times = [NegInf],
       point_plate_ids = [101],
       detect_collisions = detect \<rparr>"

text \<open>No resolved topology at any time.\<close>

definition example_no_topologies :: "real \<Rightarrow> example_plate list" where
  "example_no_topologies = (\<lambda>time. [])"

text \<open>Plate 101 covers the positions 0 to 5 at 10 Ma and 9 Ma; later there is no plate.\<close>

definition example_vanishing_topologies :: "real \<Rightarrow> example_plate list" where
  "example_vanishing_topologies = (\<lambda>time. if time \<ge> 9 then [(101, 0, 5)] else [])"

text \<open>The positions 0 to 5 belong to plate 101 at 10 Ma and to plate 202 afterwards.\<close>

definition example_changing_topologies :: "real \<Rightarrow> example_plate list" where
  "example_changing_topologies = (\<lambda>time. if time \<ge> 10 then [(101, 0, 5)] else [(202, 0, 5)])"

text \<open>Geometry for the one-dimensional world: the velocity of a rotation is ten times its
  shift, the boundary of a plate is the pair of its end positions, and the distance of a point
  to a boundary is a hundredth of the distance to the nearer end.\<close>

definition example_geometry ::
  "(int, int, example_plate, int \<times> int, int \<times> int, string, real) pygplates_geometry" where
  "example_geometry =
     \<lparr> calculate_velocity = (\<lambda>point stage_rotation. 10 * of_int stage_rotation),
       vector_minus = (\<lambda>v w. v - w),
       get_magnitude = abs,
       get_boundary_sub_segments = (\<lambda>(plate_id, lo, hi). [(lo, lo), (hi, hi)]),
       get_feature_type = (\<lambda>segment. ''gpml:SubductionZone''),
       get_resolved_geometry = (\<lambda>segment. segment),
       get_resolved_boundary = (\<lambda>(plate_id, lo, hi). (lo, hi)),
       geodesic_distance = (\<lambda>point (lo, hi). of_int (min \<bar>point - lo\<bar> \<bar>point - hi\<bar>) / 100),
       equatorial_radius_in_kms = 6378137 / 1000 \<rparr>"

text \<open>\<open>DEFAULT_COLLISION = DefaultCollision()\<close>: the callable and its initial attributes.\<close>

definition DEFAULT_COLLISION ::
  "(int, int, example_plate, (int, string) default_collision) policy" where
  "DEFAULT_COLLISION = DefaultCollision_call example_geometry"

definition DEFAULT_COLLISION_state :: "(int, string) default_collision" where
  "DEFAULT_COLLISION_state = DefaultCollision_init DEFAULT_GLOBAL_COLLISION_PARAMETERS None"

text \<open>The counter \<open>num_activated_points\<close> is the number of points whose flag
  \<open>point_has_been_activated\<close> is set.\<close>

definition activation_counted :: "('p, 'r, 'b, 'tf, 'ps) engine \<Rightarrow> ('p, 'b, 'ps) state \<Rightarrow> bool" where
  "activation_counted e s =
     (wf_state e s \<and>
      num_activated_points s = length (filter (\<lambda>flag. flag) (point_has_been_activated s)))"




text \<open>A sequence of calls of a \<open>ContinentCollision\<close> object, one for each query
  \<open>(time, prev_point, curr_point, prev_topology_plate_id, prev_resolved_plate_boundary,
  curr_topology_plate_id, curr_resolved_plate_boundary)\<close>, as the collision loop of the engine
  makes them; the verdicts are dropped, the object is returned.\<close>

type_synonym ('p, 'b) query = "real \<times> 'p \<times> 'p \<times> int option \<times> 'b option \<times> int option \<times> 'b option"

fun continent_calls ::
  "'p raster_library \<Rightarrow> string \<Rightarrow> ('p, 'r, 'b, 'cs) policy option \<Rightarrow> 'r rotation_model \<Rightarrow> real \<Rightarrow>
   ('p, 'b) query list \<Rightarrow> 'cs continent_collision \<Rightarrow> error + 'cs continent_collision" where
  "continent_calls raster grd_output_dir chain rot_model time_interval [] self = Inr self"
| "continent_calls raster grd_output_dir chain rot_model time_interval
      ((time, prev_point, curr_point, prev_id, prev_boundary, curr_id, curr_boundary) # rest) self =
     (case ContinentCollision_call raster grd_output_dir chain rot_model time time_interval
             prev_point curr_point prev_id prev_boundary curr_id curr_boundary self of
        Inl err \<Rightarrow> Inl err
      | Inr (collided, self') \<Rightarrow>
          continent_calls raster grd_output_dir chain rot_model time_interval rest self')"

text \<open>The raster value under the current point of a query.\<close>

definition sampled ::
  "'p raster_library \<Rightarrow> (real \<Rightarrow> real \<Rightarrow> real) \<Rightarrow> 'p \<Rightarrow> real" where
  "sampled raster interpolator curr_point =
     interpolator (snd (to_lat_lon raster curr_point)) (fst (to_lat_lon raster curr_point))"

text \<open>A raster for the one-dimensional world: continent at the positions from 3 on, at every
  time; the position of a point is its longitude.\<close>

definition example_raster :: "int raster_library" where
  "example_raster =
     \<lparr> read_netcdf_grid = (\<lambda>grd_output_dir time. Inr (\<lambda>lon lat. if lon \<ge> 3 then 1 else 0)),
       to_lat_lon = (\<lambda>point. (0, of_int point)) \<rparr>"

text \<open>Two runs without collision callable: one with no resolved topology at all, one with a
  topology that vanishes.\<close>

definition lost_point_engine ::
  "(int, int, example_plate, real \<Rightarrow> example_plate list, unit) engine" where
  "lost_point_engine = example_engine example_no_topologies None"

definition stale_point_engine ::
  "(int, int, example_plate, real \<Rightarrow> example_plate list, unit) engine" where
  "stale_point_engine = example_engine example_vanishing_topologies None"

text \<open>The current point of a query.\<close>

definition query_point :: "('p, 'b) query \<Rightarrow> 'p" where
  "query_point q = fst (snd (snd q))"

text \<open>A \<open>ContinentCollision\<close> object of the example world that has loaded the grid of 10 Ma
  and counted seven deletions since; it has no chained callable (its state is \<open>()\<close>).\<close>

definition example_continent_state :: "unit continent_collision" where
  "example_continent_state =
     \<lparr> grid_time = Some 10,
       f = Some (\<lambda>lon lat. if lon \<ge> 3 then 1 else 0),
       continent_deletion_count = Some 7,
       chain_state = () \<rparr>"

text \<open>Three queries at 9 Ma, for current points at 4, 1 and 5.\<close>

definition example_queries :: "(int, example_plate) query list" where
  "example_queries =
     [(9, 3, 4, Some 101, Some (101, 0, 5), Some 101, Some (101, 0, 5)),
      (9, 0, 1, Some 101, Some (101, 0, 5), Some 101, Some (101, 0, 5)),
      (9, 4, 5, Some 101, Some (101, 0, 5), Some 101, Some (101, 0, 5))]"

section \<open>Properties of construction\<close>

lemma init_Inr_iff:
  "ReconstructByTopologies_init rm tf b e dt pts bts ets pids dc = Inr eng \<Longrightarrow>
     0 < dt \<and> \<not> mismatch bts (length pts) \<and> \<not> mismatch ets (length pts) \<and>
     \<not> mismatch pids (length pts)"
  by (auto simp: ReconstructByTopologies_init_def Let_def split: if_splits prod.splits)

text \<open>
  Claim C5. For a positive time interval (and arrays of matching length) construction succeeds.
  When the begin and end times differ, the number of sample times is
  \<open>1 + floor(1e-6 + (end - begin) / signed step)\<close>, where the signed step has the sign of
  \<open>end - begin\<close> and the magnitude of the given interval; a count of 1 is replaced by 2 and the
  step by the whole span \<open>end - begin\<close>. When the begin and end times are equal the span is zero,
  the count is 2 and the step is the (zero) span.
\<close>

theorem step_count_derivation:
  assumes "0 < dt" "\<not> mismatch bts (length pts)" "\<not> mismatch ets (length pts)"
    "\<not> mismatch pids (length pts)"
  shows "\<exists>eng. ReconstructByTopologies_init rm tf b e dt pts bts ets pids dc = Inr eng \<and>
     (b \<noteq> e \<longrightarrow>
        (let signed_step = sgn (e - b) * dt;
             n = 1 + \<lfloor>1 / 1000000 + (e - b) / signed_step\<rfloor>
         in num_times eng = (if n = 1 then 2 else n) \<and>
            reconstruction_time_step eng = (if n = 1 then e - b else signed_step))) \<and>
     (b = e \<longrightarrow> num_times eng = 2 \<and> reconstruction_time_step eng = e - b) \<and>
     reconstruction_time_interval eng = \<bar>reconstruction_time_step eng\<bar> \<and>
     last_time_index eng = num_times eng - 1"
  using assms
  by (auto simp: ReconstructByTopologies_init_def time_steps_def Let_def sgn_if
           split: prod.splits if_splits)

theorem step_count_derivation_witness:
  "(0::real) < 1 \<and> \<not> mismatch (None :: pytime list option) (length [0::int]) \<and>
   (\<exists>eng. (ReconstructByTopologies_init example_rotation_model () 10 0 1 [0::int] None None None
             (None :: (int, int, unit, unit) policy option)
             :: error + (int, int, unit, unit, unit) engine) = Inr eng \<and>
          num_times eng = 11 \<and> reconstruction_time_step eng = - 1) \<and>
   (\<exists>eng. (ReconstructByTopologies_init example_rotation_model () 0 3 5 [0::int] None None None
             (None :: (int, int, unit, unit) policy option)
             :: error + (int, int, unit, unit, unit) engine) = Inr eng \<and>
          num_times eng = 2 \<and> reconstruction_time_step eng = 3)"
proof -
  have m: "\<not> mismatch (None :: pytime list option) (length [0::int])"
          "\<not> mismatch (None :: int list option) (length [0::int])"
    by (simp_all add: mismatch_def)
  have p: "(0::real) < 1" "(0::real) < 5" by simp_all
  show ?thesis
    using step_count_derivation [OF p(1) m(1) m(1) m(2), of example_rotation_model "()" 10 0 None]
          step_count_derivation [OF p(2) m(1) m(1) m(2), of example_rotation_model "()" 0 3 None]
          m(1)
    by (auto simp: Let_def)
qed



section \<open>Loops over \<open>range(num_points)\<close>\<close>

lemma fold_upt_induct:
  assumes "Q 0 s" and "\<And>i s'. i < n \<Longrightarrow> Q i s' \<Longrightarrow> Q (Suc i) (body i s')"
  shows "Q n (fold body [0..<n] s)"
proof -
  have "k \<le> n \<Longrightarrow> Q k (fold body [0..<k] s)" for k
  proof (induction k)
    case 0
    show ?case using assms(1) by simp
  next
    case (Suc k)
    then have "Q k (fold body [0..<k] s)" and "k < n" by simp_all
    then show ?case using assms(2) by simp
  qed
  then show ?thesis by simp
qed

lemma init_wf_engine:
  assumes "ReconstructByTopologies_init rm tf b en dt pts bts ets pids dc = Inr e"
  shows "wf_engine e"
proof -
  have pos: "0 < dt" using init_Inr_iff [OF assms] by simp
  have "0 \<le> (en - b) / (if b > en then - dt else dt)"
    using pos by (auto simp: zero_le_divide_iff)
  then have "0 \<le> \<lfloor>1 / 1000000 + (en - b) / (if b > en then - dt else dt)\<rfloor>"
    by simp
  moreover define k where "k = \<lfloor>1 / 1000000 + (en - b) / (if b > en then - dt else dt)\<rfloor>"
  ultimately have k0: "0 \<le> k" by simp
  have "time_steps b en dt =
      (if 1 + k = 1 then (2, en - b) else (1 + k, if b > en then - dt else dt))"
    by (simp add: time_steps_def Let_def k_def)
  then have "2 \<le> fst (time_steps b en dt)"
    using k0 by auto
  then show ?thesis
    using assms
    by (auto simp: ReconstructByTopologies_init_def wf_engine_def or_default_def mismatch_def
          Let_def split: if_splits prod.splits option.splits)
qed

subsection \<open>\<open>_activate_deactivate_points\<close>\<close>

lemma activate_deactivate_points_result:
  assumes "wf_state e s"
  defines "s' \<equiv> activate_deactivate_points e s"
  shows "wf_state e s' \<and> activation_frame s s' \<and>
    (\<forall>i < num_points e.
       curr_points s' ! i =
         (case curr_points s ! i of
            None \<Rightarrow> if \<not> point_has_been_activated s ! i \<and> in_window e (get_current_time e s) i
                    then Some (points e ! i) else None
          | Some p \<Rightarrow> if in_window e (get_current_time e s) i then Some p else None) \<and>
       point_has_been_activated s' ! i =
         (point_has_been_activated s ! i \<or>
          (curr_points s ! i = None \<and> in_window e (get_current_time e s) i)))"
proof -
  let ?t = "get_current_time e s"
  let ?n = "num_points e"
  let ?done = "\<lambda>i u.
       curr_points u ! i =
         (case curr_points s ! i of
            None \<Rightarrow> if \<not> point_has_been_activated s ! i \<and> in_window e ?t i
                    then Some (points e ! i) else None
          | Some p \<Rightarrow> if in_window e ?t i then Some p else None) \<and>
       point_has_been_activated u ! i =
         (point_has_been_activated s ! i \<or> (curr_points s ! i = None \<and> in_window e ?t i))"
  let ?Q = "\<lambda>k u. wf_state e u \<and> activation_frame s u \<and> (\<forall>i<k. ?done i u) \<and>
      (\<forall>i. k \<le> i \<and> i < ?n \<longrightarrow> curr_points u ! i = curr_points s ! i \<and>
           point_has_been_activated u ! i = point_has_been_activated s ! i)"
  have base: "?Q 0 s" using assms(1) by (simp add: activation_frame_def)
  have step: "?Q (Suc i) (activate_deactivate_point e ?t i u)" if i: "i < ?n" and Q: "?Q i u" for i u
  proof -
    let ?u = "activate_deactivate_point e ?t i u"
    have wf: "wf_state e ?u"
      using Q by (simp add: wf_state_def activate_deactivate_point_def)
    have fr: "activation_frame s ?u"
      using Q by (simp add: activation_frame_def activate_deactivate_point_def)
    have cur: "curr_points u ! i = curr_points s ! i"
      "point_has_been_activated u ! i = point_has_been_activated s ! i"
      using Q i by simp_all
    have len: "i < length (curr_points u)" "i < length (point_has_been_activated u)"
      using Q i by (simp_all add: wf_state_def)
    have at_i: "?done i ?u"
      using cur len by (auto simp: activate_deactivate_point_def split: option.splits)
    have other: "j \<noteq> i \<Longrightarrow> curr_points ?u ! j = curr_points u ! j \<and>
        point_has_been_activated ?u ! j = point_has_been_activated u ! j" for j
      by (simp add: activate_deactivate_point_def)
    have below: "\<forall>j<Suc i. ?done j ?u"
    proof (intro allI impI)
      fix j assume "j < Suc i"
      then consider "j = i" | "j < i" by linarith
      then show "?done j ?u"
      proof cases
        case 1 show ?thesis unfolding 1 by (rule at_i)
      next
        case 2
        then have "?done j u" using Q by simp
        then show ?thesis using other [of j] 2 by simp
      qed
    qed
    have above: "\<forall>j. Suc i \<le> j \<and> j < ?n \<longrightarrow> curr_points ?u ! j = curr_points s ! j \<and>
           point_has_been_activated ?u ! j = point_has_been_activated s ! j"
      using Q other by auto
    show ?thesis using wf fr below above by blast
  qed
  have "?Q ?n (fold (activate_deactivate_point e ?t) [0..<?n] s)"
    by (rule fold_upt_induct [where Q = ?Q, OF base step])
  then show ?thesis by (simp add: s'_def activate_deactivate_points_def)
qed

subsection \<open>\<open>_find_resolved_topologies_containing_points\<close>\<close>

text \<open>The index list leads every active point to its own entry of \<open>curr_valid_points\<close>.\<close>

lemma valid_points_spec:
  "valid_points cs acc = (indices, valid) \<Longrightarrow>
     valid = acc @ [p. Some p \<leftarrow> cs] \<and> length indices = length cs \<and>
     (\<forall>i < length cs.
        (cs ! i = None \<longrightarrow> indices ! i = None) \<and>
        (\<forall>p. cs ! i = Some p \<longrightarrow>
           (\<exists>j. indices ! i = Some j \<and> j < length valid \<and> valid ! j = p)))"
proof (induction cs arbitrary: acc indices valid)
  case Nil
  then show ?case by simp
next
  case (Cons c cs)
  let ?P = "\<lambda>cs indices valid i. (cs ! i = None \<longrightarrow> indices ! i = None) \<and>
        (\<forall>p. cs ! i = Some p \<longrightarrow>
           (\<exists>j. indices ! i = Some j \<and> j < length valid \<and> valid ! j = p))"
  show ?case
  proof (cases c)
    case None
    obtain is' v' where r: "valid_points cs acc = (is', v')" by (cases "valid_points cs acc")
    have eq: "indices = None # is'" "valid = v'"
      using Cons.prems None r by simp_all
    have IH: "v' = acc @ [p. Some p \<leftarrow> cs]" "length is' = length cs"
      "\<forall>i < length cs. ?P cs is' v' i"
      using Cons.IH [OF r] by blast+
    have "?P (c # cs) indices valid i" if "i < length (c # cs)" for i
    proof (cases i)
      case 0
      then show ?thesis using eq None by simp
    next
      case (Suc k)
      then have "?P cs is' v' k" using IH(3) that by simp
      then show ?thesis using Suc eq by simp
    qed
    then show ?thesis using IH(1,2) eq None by simp
  next
    case (Some p)
    obtain is' v' where r: "valid_points cs (acc @ [p]) = (is', v')"
      by (cases "valid_points cs (acc @ [p])")
    have eq: "indices = Some (length acc) # is'" "valid = v'"
      using Cons.prems Some r by simp_all
    have IH: "v' = (acc @ [p]) @ [p. Some p \<leftarrow> cs]" "length is' = length cs"
      "\<forall>i < length cs. ?P cs is' v' i"
      using Cons.IH [OF r] by blast+
    have here: "length acc < length v'" "v' ! length acc = p"
      using IH(1) by (simp_all add: nth_append)
    have "?P (c # cs) indices valid i" if "i < length (c # cs)" for i
    proof (cases i)
      case 0
      then show ?thesis using eq Some here by simp
    next
      case (Suc k)
      then have "?P cs is' v' k" using IH(3) that by simp
      then show ?thesis using Suc eq by simp
    qed
    then show ?thesis using IH(1,2) eq Some by simp
  qed
qed

lemma find_resolved_topologies_result:
  fixes lib :: "('p, 'r, 'b, 'tf) pygplates" and e :: "('p, 'r, 'b, 'tf, 'ps) engine"
  assumes "wf_state e s"
  defines "s' \<equiv> find_resolved_topologies_containing_points lib e s"
  defines "resolved \<equiv>
     resolve_topologies lib (topology_features e) (rotation_model e) (get_current_time e s)"
  shows "wf_state e s' \<and> topology_frame s s' \<and>
    (\<forall>i < num_points e.
       curr_resolved_plate_boundaries s' ! i =
         (case curr_points s ! i of None \<Rightarrow> None | Some p \<Rightarrow> find_polygon lib p resolved) \<and>
       curr_topology_plate_ids s' ! i =
         map_option (get_reconstruction_plate_id lib) (curr_resolved_plate_boundaries s' ! i))"
proof -
  let ?n = "num_points e"
  obtain indices valid where vp: "valid_points (curr_points s) [] = (indices, valid)"
    by (cases "valid_points (curr_points s) []")
  define containing where "containing = map (\<lambda>point. find_polygon lib point resolved) valid"
  have len: "length (curr_points s) = ?n" using assms(1) by (simp add: wf_state_def)
  have spec: "\<forall>i < ?n. \<forall>p. curr_points s ! i = Some p \<longrightarrow>
        (\<exists>j. indices ! i = Some j \<and> j < length valid \<and> valid ! j = p)"
    using valid_points_spec [OF vp] len by metis
  have look: "containing ! the (indices ! i) = find_polygon lib p resolved"
    if i: "i < ?n" and c: "curr_points s ! i = Some p" for i p
  proof -
    obtain j where "indices ! i = Some j" "j < length valid" "valid ! j = p"
      using spec i c by blast
    then show ?thesis by (simp add: containing_def)
  qed
  let ?body = "resolve_point lib containing indices"
  let ?done = "\<lambda>i u.
       curr_resolved_plate_boundaries u ! i =
         (case curr_points s ! i of None \<Rightarrow> None | Some p \<Rightarrow> find_polygon lib p resolved) \<and>
       curr_topology_plate_ids u ! i =
         map_option (get_reconstruction_plate_id lib) (curr_resolved_plate_boundaries u ! i)"
  let ?Q = "\<lambda>k u. wf_state e u \<and> topology_frame s u \<and> (\<forall>i<k. ?done i u)"
  have base: "?Q 0 s" using assms(1) by (simp add: topology_frame_def)
  have step: "?Q (Suc i) (?body i u)" if i: "i < ?n" and Q: "?Q i u" for i u
  proof -
    let ?u = "?body i u"
    have cp: "curr_points u = curr_points s" using Q by (simp add: topology_frame_def)
    have wf: "wf_state e ?u"
      using Q by (simp add: wf_state_def resolve_point_def Let_def split: option.splits)
    have fr: "topology_frame s ?u"
      using Q by (simp add: topology_frame_def resolve_point_def Let_def split: option.splits)
    have lens: "i < length (curr_topology_plate_ids u)"
      "i < length (curr_resolved_plate_boundaries u)"
      using Q i by (simp_all add: wf_state_def)
    have at_i: "?done i ?u"
    proof (cases "curr_points s ! i")
      case None
      then show ?thesis using lens cp by (simp add: resolve_point_def)
    next
      case (Some p)
      then show ?thesis
        using lens cp look [OF i Some]
        by (simp add: resolve_point_def Let_def split: option.splits)
    qed
    have other: "j \<noteq> i \<Longrightarrow>
        curr_resolved_plate_boundaries ?u ! j = curr_resolved_plate_boundaries u ! j \<and>
        curr_topology_plate_ids ?u ! j = curr_topology_plate_ids u ! j" for j
      by (simp add: resolve_point_def Let_def split: option.splits)
    have below: "\<forall>j<Suc i. ?done j ?u"
    proof (intro allI impI)
      fix j assume "j < Suc i"
      then consider "j = i" | "j < i" by linarith
      then show "?done j ?u"
      proof cases
        case 1 show ?thesis unfolding 1 by (rule at_i)
      next
        case 2
        then have "?done j u" using Q by simp
        then show ?thesis using other [of j] 2 by simp
      qed
    qed
    show ?thesis using wf fr below by blast
  qed
  have "?Q ?n (fold ?body [0..<?n] s)"
    by (rule fold_upt_induct [where Q = ?Q, OF base step])
  moreover have "s' = fold ?body [0..<?n] s"
    using vp len
    by (simp add: s'_def find_resolved_topologies_containing_points_def containing_def
          resolved_def Let_def)
  ultimately show ?thesis by simp
qed

subsection \<open>The two loops of \<open>reconstruct_to_next_time\<close>\<close>

text \<open>The first loop. The cache only ever holds what the rotation model returns for the
  current pair of times, so a cached rotation equals a fetched one. An active point without
  topology plate id keeps whatever \<open>next_points\<close> held at its position before the loop.\<close>

lemma reconstruct_points_result:
  fixes lib :: "('p, 'r, 'b, 'tf) pygplates" and e :: "('p, 'r, 'b, 'tf, 'ps) engine"
  assumes "wf_state e s"
  defines "t \<equiv> get_current_time e s"
  defines "np \<equiv> fst (fold (reconstruct_point lib e s t) [0..<num_points e]
                         (next_points s, Map.empty))"
  shows "length np = num_points e \<and>
    (\<forall>i < num_points e.
       np ! i =
         (case curr_points s ! i of
            None \<Rightarrow> None
          | Some p \<Rightarrow>
              (case curr_topology_plate_ids s ! i of
                 None \<Rightarrow> next_points s ! i
               | Some plate_id \<Rightarrow>
                   Some (rotate lib
                          (rotation_model e (t + reconstruction_time_step e) plate_id t) p))))"
proof -
  let ?n = "num_points e"
  let ?rot = "\<lambda>plate_id. rotation_model e (t + reconstruction_time_step e) plate_id t"
  let ?body = "reconstruct_point lib e s t"
  let ?done = "\<lambda>i (xs :: 'p option list).
       xs ! i =
         (case curr_points s ! i of
            None \<Rightarrow> None
          | Some p \<Rightarrow>
              (case curr_topology_plate_ids s ! i of
                 None \<Rightarrow> next_points s ! i
               | Some plate_id \<Rightarrow> Some (rotate lib (?rot plate_id) p)))"
  let ?Q = "\<lambda>k acc. length (fst acc) = ?n \<and>
      (\<forall>plate_id r. snd acc plate_id = Some r \<longrightarrow> r = ?rot plate_id) \<and>
      (\<forall>i<k. ?done i (fst acc)) \<and>
      (\<forall>i. k \<le> i \<and> i < ?n \<longrightarrow> fst acc ! i = next_points s ! i)"
  have base: "?Q 0 (next_points s, Map.empty)"
    using assms(1) by (simp add: wf_state_def)
  have step: "?Q (Suc i) (?body i acc)" if i: "i < ?n" and Q: "?Q i acc" for i acc
  proof -
    obtain xs d where acc: "acc = (xs, d)" by (cases acc)
    obtain xs' d' where r: "?body i acc = (xs', d')" by (cases "?body i acc")
    have len: "length xs = ?n" and cache: "\<And>plate_id r. d plate_id = Some r \<Longrightarrow> r = ?rot plate_id"
      and untouched: "xs ! i = next_points s ! i"
      using Q i acc by auto
    have len': "length xs' = ?n"
      using r len by (auto simp: acc reconstruct_point_def Let_def split: option.splits)
    have cache': "d' plate_id = Some r' \<Longrightarrow> r' = ?rot plate_id" for plate_id r'
      using r cache
      by (auto simp: acc reconstruct_point_def Let_def split: option.splits if_splits)
    have at_i: "?done i xs'"
      using r len i untouched cache
      by (auto simp: acc reconstruct_point_def Let_def split: option.splits)
    have other: "j \<noteq> i \<Longrightarrow> xs' ! j = xs ! j" for j
      using r by (auto simp: acc reconstruct_point_def Let_def split: option.splits)
    have below: "\<forall>j<Suc i. ?done j xs'"
    proof (intro allI impI)
      fix j assume "j < Suc i"
      then consider "j = i" | "j < i" by linarith
      then show "?done j xs'"
      proof cases
        case 1 show ?thesis unfolding 1 by (rule at_i)
      next
        case 2
        then have "?done j xs" using Q acc by simp
        then show ?thesis using other [of j] 2 by simp
      qed
    qed
    have above: "\<forall>j. Suc i \<le> j \<and> j < ?n \<longrightarrow> xs' ! j = next_points s ! j"
      using Q acc other by auto
    show ?thesis using len' cache' below above by (simp add: r)
  qed
  have "?Q ?n (fold ?body [0..<?n] (next_points s, Map.empty))"
    by (rule fold_upt_induct [where Q = ?Q, OF base step])
  then show ?thesis by (simp add: np_def)
qed

text \<open>The collision loop: it only ever replaces a current point by \<open>None\<close>, and it does so
  exactly at the positions that it appends to \<open>deletedpoints\<close>.\<close>

lemma detect_collisions_result:
  assumes "wf_state e s3"
    and "fold (detect_collision_at e detect t) [0..<num_points e] (Inr s3) = Inr s4"
  shows "wf_state e s4 \<and> collision_frame s3 s4 \<and>
    (\<exists>consumed. deletedpoints s4 = deletedpoints s3 @ consumed \<and>
       set consumed \<subseteq> {..<num_points e} \<and>
       (\<forall>i < num_points e.
          (i \<in> set consumed \<longrightarrow> curr_points s4 ! i = None \<and> curr_points s3 ! i \<noteq> None \<and>
             prev_points s3 ! i \<noteq> None) \<and>
          (i \<notin> set consumed \<longrightarrow> curr_points s4 ! i = curr_points s3 ! i)))"
proof -
  let ?n = "num_points e"
  let ?body = "detect_collision_at e detect t"
  let ?R = "\<lambda>k u consumed. deletedpoints u = deletedpoints s3 @ consumed \<and>
       set consumed \<subseteq> {..<k} \<and>
       (\<forall>i < ?n.
          (i \<in> set consumed \<longrightarrow> curr_points u ! i = None \<and> curr_points s3 ! i \<noteq> None \<and>
             prev_points s3 ! i \<noteq> None) \<and>
          (i \<notin> set consumed \<longrightarrow> curr_points u ! i = curr_points s3 ! i))"
  let ?Q = "\<lambda>k acc. \<forall>u. acc = Inr u \<longrightarrow>
      wf_state e u \<and> collision_frame s3 u \<and> (\<exists>consumed. ?R k u consumed)"
  have base: "?Q 0 (Inr s3)"
    using assms(1) by (simp add: collision_frame_def)
  have step: "?Q (Suc i) (?body i acc)" if i: "i < ?n" and Q: "?Q i acc" for i acc
  proof (intro allI impI)
    fix u' assume r: "?body i acc = Inr u'"
    then obtain u where acc: "acc = Inr u"
      by (cases acc) (simp_all add: detect_collision_at_def)
    obtain consumed where wf: "wf_state e u" and fr: "collision_frame s3 u"
      and R: "?R i u consumed"
      using Q acc by blast
    have fresh: "i \<notin> set consumed" using R by auto
    have wider: "set consumed \<subseteq> {..<Suc i}" using R by auto
    consider (skip) "u' = u"
      | (keep) ps where "u' = u\<lparr> collision_state := ps \<rparr>"
      | (hit) ps where "prev_points u ! i \<noteq> None" "curr_points u ! i \<noteq> None"
          "u' = u\<lparr> curr_points := (curr_points u)[i := None],
                   deletedpoints := deletedpoints u @ [i], collision_state := ps \<rparr>"
      using r
      by (auto simp: acc detect_collision_at_def split: option.splits sum.splits if_splits)
    then show "wf_state e u' \<and> collision_frame s3 u' \<and> (\<exists>consumed. ?R (Suc i) u' consumed)"
    proof cases
      case skip
      have "?R (Suc i) u' consumed" using R wider by (simp add: skip)
      then show ?thesis using wf fr skip by blast
    next
      case keep
      have "?R (Suc i) u' consumed" using R wider by (simp add: keep)
      moreover have "wf_state e u'" using wf by (simp add: keep wf_state_def)
      moreover have "collision_frame s3 u'" using fr by (simp add: keep collision_frame_def)
      ultimately show ?thesis by blast
    next
      case hit
      have len: "i < length (curr_points u)" using wf i by (simp add: wf_state_def)
      have same: "curr_points u ! i = curr_points s3 ! i" using R fresh i by simp
      have prev: "prev_points u = prev_points s3" using fr by (simp add: collision_frame_def)
      have "?R (Suc i) u' (consumed @ [i])"
      proof (intro conjI allI impI)
        show "deletedpoints u' = deletedpoints s3 @ consumed @ [i]"
          using R by (simp add: hit)
        show "set (consumed @ [i]) \<subseteq> {..<Suc i}" using wider by auto
      next
        fix j assume j: "j < ?n" and m: "j \<in> set (consumed @ [i])"
        show "curr_points u' ! j = None"
          using m R j len by (cases "j = i") (simp_all add: hit)
        show "curr_points s3 ! j \<noteq> None"
          using m R j hit(2) same by (cases "j = i") simp_all
        show "prev_points s3 ! j \<noteq> None"
          using m R j hit(1) prev by (cases "j = i") simp_all
      next
        fix j assume j: "j < ?n" and m: "j \<notin> set (consumed @ [i])"
        then show "curr_points u' ! j = curr_points s3 ! j"
          using R by (simp add: hit)
      qed
      moreover have "wf_state e u'" using wf by (simp add: hit wf_state_def)
      moreover have "collision_frame s3 u'" using fr by (simp add: hit collision_frame_def)
      ultimately show ?thesis by blast
    qed
  qed
  have "?Q ?n (fold ?body [0..<?n] (Inr s3))"
    by (rule fold_upt_induct [where Q = ?Q, OF base step])
  then show ?thesis using assms(2) by simp
qed

section \<open>One call of \<open>reconstruct_to_next_time\<close>\<close>

lemma reconstruct_to_next_time_finished:
  "finished e s \<Longrightarrow> reconstruct_to_next_time lib e s = Inr (False, s)"
  by (auto simp: reconstruct_to_next_time_def finished_def)

lemma reconstruct_to_next_time_unfinished:
  "\<not> finished e s \<Longrightarrow>
   reconstruct_to_next_time lib e s =
     (let s3 = find_resolved_topologies_containing_points lib e
                 (activate_deactivate_points e (rotate_buffers lib e s))
      in case detect_collisions e of
           None \<Rightarrow> Inr (True, s3)
         | Some detect \<Rightarrow>
             (case fold (detect_collision_at e detect (get_current_time e s3))
                     [0..<num_points e] (Inr s3) of
                Inl err \<Rightarrow> Inl err
              | Inr s4 \<Rightarrow> Inr (True, s4)))"
  by (auto simp: reconstruct_to_next_time_def finished_def rotate_buffers_def Let_def)

lemma get_current_time_next:
  "current_time_index s' = current_time_index s + 1 \<Longrightarrow>
   get_current_time e s' = get_current_time e s + reconstruction_time_step e"
  by (simp add: get_current_time_def algebra_simps)

text \<open>What one step does to every point: \<open>moved\<close> is the entry of \<open>next_points\<close> after the
  first loop, \<open>windowed\<close> the current point after activation and deactivation at the new time,
  and \<open>consumed\<close> the positions at which the collision callable returned \<open>True\<close>.\<close>

lemma step_result:
  fixes lib :: "('p, 'r, 'b, 'tf) pygplates" and e :: "('p, 'r, 'b, 'tf, 'ps) engine"
  assumes wf: "wf_state e s" and nf: "\<not> finished e s"
    and st: "reconstruct_to_next_time lib e s = Inr (progress, s')"
  defines "t \<equiv> get_current_time e s"
  defines "t' \<equiv> get_current_time e s + reconstruction_time_step e"
  defines "moved \<equiv> \<lambda>i.
     (case curr_points s ! i of
        None \<Rightarrow> None
      | Some p \<Rightarrow>
          (case curr_topology_plate_ids s ! i of
             None \<Rightarrow> next_points s ! i
           | Some plate_id \<Rightarrow> Some (rotate lib (rotation_model e t' plate_id t) p)))"
  defines "windowed \<equiv> \<lambda>i.
     (case moved i of
        None \<Rightarrow> if \<not> point_has_been_activated s ! i \<and> in_window e t' i
                then Some (points e ! i) else None
      | Some p \<Rightarrow> if in_window e t' i then Some p else None)"
  shows "progress \<and> wf_state e s' \<and>
    current_time_index s' = current_time_index s + 1 \<and>
    prev_points s' = curr_points s \<and>
    next_points s' = prev_points s \<and>
    prev_topology_plate_ids s' = curr_topology_plate_ids s \<and>
    prev_resolved_plate_boundaries s' = curr_resolved_plate_boundaries s \<and>
    (\<exists>consumed. deletedpoints s' = deletedpoints s @ consumed \<and>
       set consumed \<subseteq> {..<num_points e} \<and>
       (detect_collisions e = None \<longrightarrow> consumed = []) \<and>
       (\<forall>i < num_points e.
          curr_points s' ! i = (if i \<in> set consumed then None else windowed i) \<and>
          (i \<in> set consumed \<longrightarrow> windowed i \<noteq> None \<and> curr_points s ! i \<noteq> None) \<and>
          point_has_been_activated s' ! i =
            (point_has_been_activated s ! i \<or> (moved i = None \<and> in_window e t' i)) \<and>
          curr_resolved_plate_boundaries s' ! i =
            (case windowed i of
               None \<Rightarrow> None
             | Some p \<Rightarrow> find_polygon lib p
                 (resolve_topologies lib (topology_features e) (rotation_model e) t')) \<and>
          curr_topology_plate_ids s' ! i =
            map_option (get_reconstruction_plate_id lib) (curr_resolved_plate_boundaries s' ! i)))"
proof -
  let ?n = "num_points e"
  define s1 where "s1 = rotate_buffers lib e s"
  define s2 where "s2 = activate_deactivate_points e s1"
  define s3 where "s3 = find_resolved_topologies_containing_points lib e s2"
  have rp: "length (curr_points s1) = ?n" "\<forall>i < ?n. curr_points s1 ! i = moved i"
    unfolding s1_def rotate_buffers_def moved_def t_def t'_def
    using reconstruct_points_result [OF wf, of lib] by simp_all
  have s1: "prev_points s1 = curr_points s" "next_points s1 = prev_points s"
    "prev_topology_plate_ids s1 = curr_topology_plate_ids s"
    "prev_resolved_plate_boundaries s1 = curr_resolved_plate_boundaries s"
    "current_time_index s1 = current_time_index s + 1"
    "point_has_been_activated s1 = point_has_been_activated s"
    "deletedpoints s1 = deletedpoints s"
    by (simp_all add: s1_def rotate_buffers_def)
  have wf1: "wf_state e s1"
    using wf rp(1) by (simp add: wf_state_def s1_def rotate_buffers_def)
  have t1: "get_current_time e s1 = t'"
    using get_current_time_next [OF s1(5)] by (simp add: t'_def)
  have a: "wf_state e s2" "activation_frame s1 s2"
    "\<forall>i < ?n. curr_points s2 ! i = windowed i \<and>
       point_has_been_activated s2 ! i =
         (point_has_been_activated s ! i \<or> (moved i = None \<and> in_window e t' i))"
    using activate_deactivate_points_result [OF wf1] rp(2)
    by (simp_all add: s2_def t1 windowed_def s1(6) cong: option.case_cong)
  have t2: "get_current_time e s2 = t'"
    using a(2) t1 by (simp add: activation_frame_def get_current_time_def)
  have f: "wf_state e s3" "topology_frame s2 s3"
    "\<forall>i < ?n.
       curr_resolved_plate_boundaries s3 ! i =
         (case windowed i of
            None \<Rightarrow> None
          | Some p \<Rightarrow> find_polygon lib p
              (resolve_topologies lib (topology_features e) (rotation_model e) t')) \<and>
       curr_topology_plate_ids s3 ! i =
         map_option (get_reconstruction_plate_id lib) (curr_resolved_plate_boundaries s3 ! i)"
    using find_resolved_topologies_result [OF a(1), of lib] a(3)
    by (simp_all add: s3_def t2 cong: option.case_cong)
  have s3: "prev_points s3 = curr_points s" "next_points s3 = prev_points s"
    "prev_topology_plate_ids s3 = curr_topology_plate_ids s"
    "prev_resolved_plate_boundaries s3 = curr_resolved_plate_boundaries s"
    "current_time_index s3 = current_time_index s + 1"
    "deletedpoints s3 = deletedpoints s"
    "curr_points s3 = curr_points s2"
    "point_has_been_activated s3 = point_has_been_activated s2"
    using a(2) f(2) s1 by (simp_all add: activation_frame_def topology_frame_def)
  have unfolded: "reconstruct_to_next_time lib e s =
     (case detect_collisions e of
        None \<Rightarrow> Inr (True, s3)
      | Some detect \<Rightarrow>
          (case fold (detect_collision_at e detect (get_current_time e s3))
                  [0..<num_points e] (Inr s3) of
             Inl err \<Rightarrow> Inl err
           | Inr s4 \<Rightarrow> Inr (True, s4)))"
    unfolding s3_def s2_def s1_def
    using reconstruct_to_next_time_unfinished [OF nf, of lib] by (simp add: Let_def)
  show ?thesis
  proof (cases "detect_collisions e")
    case None
    then have "progress" "s' = s3" using st unfolded by simp_all
    moreover have "\<forall>i < ?n.
          curr_points s3 ! i = (if i \<in> set [] then None else windowed i) \<and>
          (i \<in> set [] \<longrightarrow> windowed i \<noteq> None \<and> curr_points s ! i \<noteq> None) \<and>
          point_has_been_activated s3 ! i =
            (point_has_been_activated s ! i \<or> (moved i = None \<and> in_window e t' i)) \<and>
          curr_resolved_plate_boundaries s3 ! i =
            (case windowed i of
               None \<Rightarrow> None
             | Some p \<Rightarrow> find_polygon lib p
                 (resolve_topologies lib (topology_features e) (rotation_model e) t')) \<and>
          curr_topology_plate_ids s3 ! i =
            map_option (get_reconstruction_plate_id lib) (curr_resolved_plate_boundaries s3 ! i)"
      using a(3) f(3) s3(7,8) by simp
    ultimately show ?thesis
      using f(1) s3(1-6) by (intro conjI exI [of _ "[]"]) simp_all
  next
    case (Some detect)
    then obtain s4 where
      run: "fold (detect_collision_at e detect (get_current_time e s3)) [0..<?n] (Inr s3) = Inr s4"
      and res: "progress" "s' = s4"
      using st unfolded by (auto split: sum.splits)
    obtain consumed where c: "wf_state e s4" "collision_frame s3 s4"
      "deletedpoints s4 = deletedpoints s3 @ consumed" "set consumed \<subseteq> {..<?n}"
      "\<forall>i < ?n.
          (i \<in> set consumed \<longrightarrow> curr_points s4 ! i = None \<and> curr_points s3 ! i \<noteq> None \<and>
             prev_points s3 ! i \<noteq> None) \<and>
          (i \<notin> set consumed \<longrightarrow> curr_points s4 ! i = curr_points s3 ! i)"
      using detect_collisions_result [OF f(1) run] by blast
    have s4: "prev_points s4 = curr_points s" "next_points s4 = prev_points s"
      "prev_topology_plate_ids s4 = curr_topology_plate_ids s"
      "prev_resolved_plate_boundaries s4 = curr_resolved_plate_boundaries s"
      "current_time_index s4 = current_time_index s + 1"
      "point_has_been_activated s4 = point_has_been_activated s2"
      "curr_resolved_plate_boundaries s4 = curr_resolved_plate_boundaries s3"
      "curr_topology_plate_ids s4 = curr_topology_plate_ids s3"
      using c(2) s3 by (simp_all add: collision_frame_def)
    have pt: "\<forall>i < ?n.
          curr_points s4 ! i = (if i \<in> set consumed then None else windowed i) \<and>
          (i \<in> set consumed \<longrightarrow> windowed i \<noteq> None \<and> curr_points s ! i \<noteq> None) \<and>
          point_has_been_activated s4 ! i =
            (point_has_been_activated s ! i \<or> (moved i = None \<and> in_window e t' i)) \<and>
          curr_resolved_plate_boundaries s4 ! i =
            (case windowed i of
               None \<Rightarrow> None
             | Some p \<Rightarrow> find_polygon lib p
                 (resolve_topologies lib (topology_features e) (rotation_model e) t')) \<and>
          curr_topology_plate_ids s4 ! i =
            map_option (get_reconstruction_plate_id lib) (curr_resolved_plate_boundaries s4 ! i)"
    proof (intro allI impI)
      fix i assume i: "i < ?n"
      have 1: "curr_points s4 ! i = (if i \<in> set consumed then None else windowed i)"
        using c(5) a(3) i s3(7) by auto
      have 2: "i \<in> set consumed \<longrightarrow> windowed i \<noteq> None \<and> curr_points s ! i \<noteq> None"
        using c(5) a(3) i s3(7) s3(1) by auto
      have 3: "point_has_been_activated s4 ! i =
            (point_has_been_activated s ! i \<or> (moved i = None \<and> in_window e t' i))"
        using a(3) i s4(6) by simp
      have 4: "curr_resolved_plate_boundaries s4 ! i =
            (case windowed i of
               None \<Rightarrow> None
             | Some p \<Rightarrow> find_polygon lib p
                 (resolve_topologies lib (topology_features e) (rotation_model e) t'))"
        "curr_topology_plate_ids s4 ! i =
            map_option (get_reconstruction_plate_id lib) (curr_resolved_plate_boundaries s4 ! i)"
        using f(3) i s4(7,8) by simp_all
      show "curr_points s4 ! i = (if i \<in> set consumed then None else windowed i) \<and>
          (i \<in> set consumed \<longrightarrow> windowed i \<noteq> None \<and> curr_points s ! i \<noteq> None) \<and>
          point_has_been_activated s4 ! i =
            (point_has_been_activated s ! i \<or> (moved i = None \<and> in_window e t' i)) \<and>
          curr_resolved_plate_boundaries s4 ! i =
            (case windowed i of
               None \<Rightarrow> None
             | Some p \<Rightarrow> find_polygon lib p
                 (resolve_topologies lib (topology_features e) (rotation_model e) t')) \<and>
          curr_topology_plate_ids s4 ! i =
            map_option (get_reconstruction_plate_id lib) (curr_resolved_plate_boundaries s4 ! i)"
        using 1 2 3 4 by blast
    qed
    have "deletedpoints s4 = deletedpoints s @ consumed" using c(3) s3(6) by simp
    then show ?thesis
      using res c(1) c(4) s4(1-5) pt Some
      by (intro conjI exI [of _ consumed]) simp_all
  qed
qed

section \<open>\<open>begin_reconstruction\<close> and the states reached from it\<close>

lemma begin_reconstruction_result:
  fixes lib :: "('p, 'r, 'b, 'tf) pygplates" and e :: "('p, 'r, 'b, 'tf, 'ps) engine"
    and ps :: 'ps
  defines "s0 \<equiv> begin_reconstruction lib e ps"
  shows "wf_state e s0 \<and> current_time_index s0 = 0 \<and> deletedpoints s0 = [] \<and>
    prev_points s0 = replicate (num_points e) None \<and>
    next_points s0 = replicate (num_points e) None \<and>
    (\<forall>i < num_points e.
       curr_points s0 ! i =
         (if in_window e (reconstruction_begin_time e) i then Some (points e ! i) else None) \<and>
       point_has_been_activated s0 ! i = in_window e (reconstruction_begin_time e) i \<and>
       curr_resolved_plate_boundaries s0 ! i =
         (case curr_points s0 ! i of
            None \<Rightarrow> None
          | Some p \<Rightarrow> find_polygon lib p
              (resolve_topologies lib (topology_features e) (rotation_model e)
                 (reconstruction_begin_time e))) \<and>
       curr_topology_plate_ids s0 ! i =
         map_option (get_reconstruction_plate_id lib) (curr_resolved_plate_boundaries s0 ! i))"
proof -
  let ?n = "num_points e"
  define i0 :: "('p, 'b, 'ps) state" where "i0 =
          \<lparr> current_time_index = 0,
            prev_points = replicate ?n None,
            curr_points = replicate ?n None,
            next_points = replicate ?n None,
            point_has_been_activated = replicate ?n False,
            num_activated_points = 0,
            prev_topology_plate_ids = replicate ?n None,
            curr_topology_plate_ids = replicate ?n None,
            prev_resolved_plate_boundaries = replicate ?n None,
            curr_resolved_plate_boundaries = replicate ?n None,
            deletedpoints = [],
            collision_state = ps \<rparr>"
  define s2 where "s2 = activate_deactivate_points e i0"
  have s0: "s0 = find_resolved_topologies_containing_points lib e s2"
    by (simp add: s0_def begin_reconstruction_def s2_def i0_def)
  have wf0: "wf_state e i0" by (simp add: wf_state_def i0_def)
  have t0: "get_current_time e i0 = reconstruction_begin_time e"
    by (simp add: get_current_time_def i0_def)
  have i0p: "\<forall>i < ?n. curr_points i0 ! i = None \<and> \<not> point_has_been_activated i0 ! i"
    by (simp add: i0_def)
  have a: "wf_state e s2" "activation_frame i0 s2"
    "\<forall>i < ?n. curr_points s2 ! i =
         (if in_window e (reconstruction_begin_time e) i then Some (points e ! i) else None) \<and>
       point_has_been_activated s2 ! i = in_window e (reconstruction_begin_time e) i"
    using activate_deactivate_points_result [OF wf0, folded s2_def, unfolded t0] i0p
    by simp_all
  have t2: "get_current_time e s2 = reconstruction_begin_time e"
    using a(2) t0 by (simp add: activation_frame_def get_current_time_def)
  have f: "wf_state e s0" "topology_frame s2 s0"
    "\<forall>i < ?n.
       curr_resolved_plate_boundaries s0 ! i =
         (case curr_points s2 ! i of
            None \<Rightarrow> None
          | Some p \<Rightarrow> find_polygon lib p
              (resolve_topologies lib (topology_features e) (rotation_model e)
                 (reconstruction_begin_time e))) \<and>
       curr_topology_plate_ids s0 ! i =
         map_option (get_reconstruction_plate_id lib) (curr_resolved_plate_boundaries s0 ! i)"
    using find_resolved_topologies_result [OF a(1), of lib]
    by (simp_all add: s0 t2 cong: option.case_cong)
  have same: "curr_points s0 = curr_points s2"
    "point_has_been_activated s0 = point_has_been_activated s2"
    "current_time_index s0 = 0" "deletedpoints s0 = []"
    "prev_points s0 = replicate ?n None" "next_points s0 = replicate ?n None"
    using a(2) f(2) by (simp_all add: activation_frame_def topology_frame_def i0_def)
  show ?thesis
    using f(1) f(3) a(3) same by simp
qed

lemma engine_invariant_begin: "engine_invariant e (begin_reconstruction lib e ps)"
  using begin_reconstruction_result [where lib = lib and e = e and ps = ps]
  by (simp add: engine_invariant_def)

lemma engine_invariant_step:
  assumes inv: "engine_invariant e s"
    and st: "reconstruct_to_next_time lib e s = Inr (progress, s')"
  shows "engine_invariant e s' \<and> set (deletedpoints s) \<subseteq> set (deletedpoints s')"
proof (cases "finished e s")
  case True
  then have "s' = s" using st reconstruct_to_next_time_finished [OF True, of lib] by simp
  then show ?thesis using inv by simp
next
  case False
  let ?n = "num_points e"
  have wf: "wf_state e s" using inv by (simp add: engine_invariant_def)
  define t where "t = get_current_time e s"
  define t' where "t' = get_current_time e s + reconstruction_time_step e"
  define moved where "moved = (\<lambda>i.
     (case curr_points s ! i of
        None \<Rightarrow> None
      | Some p \<Rightarrow>
          (case curr_topology_plate_ids s ! i of
             None \<Rightarrow> next_points s ! i
           | Some plate_id \<Rightarrow> Some (rotate lib (rotation_model e t' plate_id t) p))))"
  define windowed where "windowed = (\<lambda>i.
     (case moved i of
        None \<Rightarrow> if \<not> point_has_been_activated s ! i \<and> in_window e t' i
                then Some (points e ! i) else None
      | Some p \<Rightarrow> if in_window e t' i then Some p else None))"
  obtain consumed where r: "wf_state e s'" "prev_points s' = curr_points s"
    "next_points s' = prev_points s" "deletedpoints s' = deletedpoints s @ consumed"
    "set consumed \<subseteq> {..<?n}"
    and pt: "\<And>i. i < ?n \<Longrightarrow>
          curr_points s' ! i = (if i \<in> set consumed then None else windowed i) \<and>
          (i \<in> set consumed \<longrightarrow> windowed i \<noteq> None \<and> curr_points s ! i \<noteq> None) \<and>
          point_has_been_activated s' ! i =
            (point_has_been_activated s ! i \<or> (moved i = None \<and> in_window e t' i))"
    using step_result [OF wf False st]
    unfolding t_def t'_def moved_def windowed_def by blast
  have old: "\<And>i. i < ?n \<Longrightarrow>
      (prev_points s ! i \<noteq> None \<or> curr_points s ! i \<noteq> None \<or> next_points s ! i \<noteq> None)
        \<Longrightarrow> point_has_been_activated s ! i"
    using inv unfolding engine_invariant_def by blast
  have dead: "\<And>i. i \<in> set (deletedpoints s) \<Longrightarrow>
        i < ?n \<and> curr_points s ! i = None \<and> point_has_been_activated s ! i"
    using inv unfolding engine_invariant_def by blast
  have moved_act: "moved i \<noteq> None \<Longrightarrow> point_has_been_activated s ! i" if "i < ?n" for i
    using old [OF that] by (auto simp: moved_def split: option.splits)
  have windowed_act: "windowed i \<noteq> None \<Longrightarrow> point_has_been_activated s' ! i" if "i < ?n" for i
    using pt [OF that] moved_act [OF that]
    by (cases "moved i") (auto simp: windowed_def split: if_splits)
  have mono: "point_has_been_activated s ! i \<Longrightarrow> point_has_been_activated s' ! i"
    if "i < ?n" for i
    using pt [OF that] by simp
  have buffers: "point_has_been_activated s' ! i"
    if i: "i < ?n" and present: "prev_points s' ! i \<noteq> None \<or> curr_points s' ! i \<noteq> None \<or>
        next_points s' ! i \<noteq> None" for i
  proof -
    consider "curr_points s ! i \<noteq> None" | "prev_points s ! i \<noteq> None"
      | "curr_points s' ! i \<noteq> None"
      using present r(2,3) by auto
    then show ?thesis
    proof cases
      case 1 then show ?thesis using old [OF i] mono [OF i] by blast
    next
      case 2 then show ?thesis using old [OF i] mono [OF i] by blast
    next
      case 3
      then have "windowed i \<noteq> None" using pt [OF i] by (auto split: if_splits)
      then show ?thesis by (rule windowed_act [OF i])
    qed
  qed
  have stays: "i < ?n \<and> curr_points s' ! i = None \<and> point_has_been_activated s' ! i"
    if del: "i \<in> set (deletedpoints s')" for i
  proof -
    consider "i \<in> set (deletedpoints s)" | "i \<in> set consumed" using del r(4) by auto
    then show ?thesis
    proof cases
      case 1
      then have d: "i < ?n" "curr_points s ! i = None" "point_has_been_activated s ! i"
        using dead by blast+
      have "moved i = None" using d(2) by (simp add: moved_def)
      then have "windowed i = None" using d(3) by (simp add: windowed_def)
      then show ?thesis using pt [OF d(1)] d(1,3) by simp
    next
      case 2
      then have i: "i < ?n" using r(5) by auto
      have "windowed i \<noteq> None" "curr_points s' ! i = None" using pt [OF i] 2 by simp_all
      then show ?thesis using i windowed_act [OF i] by simp
    qed
  qed
  have "engine_invariant e s'"
    unfolding engine_invariant_def using r(1) buffers stays by blast
  then show ?thesis using r(4) by simp
qed

lemma steps_Suc_end:
  "steps (Suc k) lib e s =
     (case steps k lib e s of
        Inl err \<Rightarrow> Inl err
      | Inr s' \<Rightarrow>
          (case reconstruct_to_next_time lib e s' of
             Inl err \<Rightarrow> Inl err
           | Inr (progress, s'') \<Rightarrow> Inr s''))"
proof (induction k arbitrary: s)
  case 0
  show ?case by (simp split: sum.splits prod.splits)
next
  case (Suc k)
  show ?case
  proof (cases "reconstruct_to_next_time lib e s")
    case (Inl err)
    then show ?thesis by simp
  next
    case (Inr r)
    obtain progress s1 where r: "r = (progress, s1)" by (cases r)
    have "steps (Suc (Suc k)) lib e s = steps (Suc k) lib e s1"
      using Inr r by simp
    also have "\<dots> = (case steps k lib e s1 of
        Inl err \<Rightarrow> Inl err
      | Inr s' \<Rightarrow>
          (case reconstruct_to_next_time lib e s' of
             Inl err \<Rightarrow> Inl err
           | Inr (progress, s'') \<Rightarrow> Inr s''))"
      by (rule Suc.IH)
    also have "steps k lib e s1 = steps (Suc k) lib e s"
      using Inr r by simp
    finally show ?thesis .
  qed
qed

lemma engine_invariant_steps:
  "engine_invariant e s \<Longrightarrow> steps k lib e s = Inr s' \<Longrightarrow>
     engine_invariant e s' \<and> set (deletedpoints s) \<subseteq> set (deletedpoints s')"
proof (induction k arbitrary: s)
  case 0
  then show ?case by simp
next
  case (Suc k)
  from Suc.prems(2) obtain progress s1 where
    st: "reconstruct_to_next_time lib e s = Inr (progress, s1)" and
    rest: "steps k lib e s1 = Inr s'"
    by (auto split: sum.splits)
  have "engine_invariant e s1" "set (deletedpoints s) \<subseteq> set (deletedpoints s1)"
    using engine_invariant_step [OF Suc.prems(1) st] by simp_all
  then show ?case using Suc.IH [OF _ rest] by blast
qed

section \<open>Collisions are final\<close>

lemma example_engine_init:
  "ReconstructByTopologies_init example_rotation_model topologies 10 0 1 [0] None None
     (Some [101]) detect = Inr (example_engine topologies detect)"
  by (simp add: ReconstructByTopologies_init_def time_steps_def mismatch_def or_default_def
        example_engine_def)

text \<open>The collision loop records a position in \<open>deletedpoints\<close> exactly when the callable
  returns \<open>True\<close> for it, and then makes the current point \<open>None\<close>.\<close>

lemma detect_collision_at_records:
  assumes "prev_points s ! i = Some prev_point" "curr_points s ! i = Some curr_point"
    and "detect (rotation_model e) t (reconstruction_time_interval e) prev_point curr_point
           (prev_topology_plate_ids s ! i) (prev_resolved_plate_boundaries s ! i)
           (curr_topology_plate_ids s ! i) (curr_resolved_plate_boundaries s ! i)
           (collision_state s) = Inr (collided, ps)"
  shows "\<exists>s'. detect_collision_at e detect t i (Inr s) = Inr s' \<and>
     deletedpoints s' = (if collided then deletedpoints s @ [i] else deletedpoints s) \<and>
     curr_points s' = (if collided then (curr_points s)[i := None] else curr_points s)"
  using assms by (simp add: detect_collision_at_def)

text \<open>
  Claim C6. Take any engine that construction returns, any library and any collision callable.
  If a point is recorded in \<open>deletedpoints\<close> in the state reached after \<open>k\<close> steps (the
  collision callable reported a collision for it in one of these steps), then after any number
  \<open>m\<close> of further steps its current position is \<open>None\<close>, and it is still recorded.
\<close>

theorem collided_points_stay_inactive:
  assumes "ReconstructByTopologies_init rm tf b en dt pts bts ets pids dc = Inr e"
    and "steps k lib e (begin_reconstruction lib e ps) = Inr s"
    and "i \<in> set (deletedpoints s)"
    and "steps m lib e s = Inr s'"
  shows "curr_points s' ! i = None \<and> i \<in> set (deletedpoints s')"
proof -
  have "engine_invariant e s"
    using engine_invariant_steps [OF engine_invariant_begin assms(2)] by simp
  then have "engine_invariant e s'" "set (deletedpoints s) \<subseteq> set (deletedpoints s')"
    using engine_invariant_steps [OF _ assms(4)] by simp_all
  then show ?thesis
    using assms(3) unfolding engine_invariant_def by blast
qed

theorem collided_points_stay_inactive_witness:
  "\<exists>e s s'.
     ReconstructByTopologies_init example_rotation_model example_changing_topologies 10 0 1 [0]
       None None (Some [101]) (Some DEFAULT_COLLISION) = Inr e \<and>
     steps 1 example_library e (begin_reconstruction example_library e DEFAULT_COLLISION_state)
       = Inr s \<and>
     0 \<in> set (deletedpoints s) \<and>
     steps 2 example_library e s = Inr s' \<and>
     curr_points s' ! 0 = None"
proof -
  let ?e = "example_engine example_changing_topologies (Some DEFAULT_COLLISION)"
  let ?s0 = "begin_reconstruction example_library ?e DEFAULT_COLLISION_state"
  have "map_sum id deletedpoints (steps 1 example_library ?e ?s0) = Inr [0]"
    by code_simp
  then obtain s where s: "steps 1 example_library ?e ?s0 = Inr s" "deletedpoints s = [0]"
    by (cases "steps 1 example_library ?e ?s0") auto
  have "case steps 1 example_library ?e ?s0 of
          Inl err \<Rightarrow> False | Inr u \<Rightarrow> \<not> isl (steps 2 example_library ?e u)"
    by code_simp
  then obtain s' where s': "steps 2 example_library ?e s = Inr s'"
    using s(1) by (cases "steps 2 example_library ?e s") auto
  have "0 \<in> set (deletedpoints s)" using s(2) by simp
  then show ?thesis
    using collided_points_stay_inactive [OF example_engine_init s(1) _ s'] s s'
      example_engine_init [of example_changing_topologies "Some DEFAULT_COLLISION"]
    by blast
qed

section \<open>Plate membership of inactive points\<close>

text \<open>
  Claim C3, as the source has it. Right after \<open>begin_reconstruction\<close>, and after every call of
  \<open>reconstruct_to_next_time\<close> that returns \<open>True\<close>, every point whose current position is
  \<open>None\<close> and that was not consumed by the collision callable in that call has neither a current
  topology plate id nor a current resolved plate boundary. (A point consumed in the call keeps
  both until the next call resolves them again.)
\<close>

theorem inactive_points_have_no_membership:
  assumes "ReconstructByTopologies_init rm tf b en dt pts bts ets pids dc = Inr e"
    and "steps k lib e (begin_reconstruction lib e ps) = Inr s"
    and "reconstruct_to_next_time lib e s = Inr (True, s')"
  shows "(\<forall>i < num_points e.
            curr_points (begin_reconstruction lib e ps) ! i = None \<longrightarrow>
            curr_topology_plate_ids (begin_reconstruction lib e ps) ! i = None \<and>
            curr_resolved_plate_boundaries (begin_reconstruction lib e ps) ! i = None) \<and>
         (\<forall>i < num_points e.
            curr_points s' ! i = None \<longrightarrow> i \<notin> set (consumed_in_step s s') \<longrightarrow>
            curr_topology_plate_ids s' ! i = None \<and>
            curr_resolved_plate_boundaries s' ! i = None)"
proof -
  let ?n = "num_points e"
  have first: "\<forall>i < ?n.
            curr_points (begin_reconstruction lib e ps) ! i = None \<longrightarrow>
            curr_topology_plate_ids (begin_reconstruction lib e ps) ! i = None \<and>
            curr_resolved_plate_boundaries (begin_reconstruction lib e ps) ! i = None"
    using begin_reconstruction_result [where lib = lib and e = e and ps = ps] by simp
  have "engine_invariant e s"
    using engine_invariant_steps [OF engine_invariant_begin assms(2)] by simp
  then have wf: "wf_state e s" by (simp add: engine_invariant_def)
  have nf: "\<not> finished e s"
    using assms(3) reconstruct_to_next_time_finished [of e s lib] by auto
  define t where "t = get_current_time e s"
  define t' where "t' = get_current_time e s + reconstruction_time_step e"
  define moved where "moved = (\<lambda>i.
     (case curr_points s ! i of
        None \<Rightarrow> None
      | Some p \<Rightarrow>
          (case curr_topology_plate_ids s ! i of
             None \<Rightarrow> next_points s ! i
           | Some plate_id \<Rightarrow> Some (rotate lib (rotation_model e t' plate_id t) p))))"
  define windowed where "windowed = (\<lambda>i.
     (case moved i of
        None \<Rightarrow> if \<not> point_has_been_activated s ! i \<and> in_window e t' i
                then Some (points e ! i) else None
      | Some p \<Rightarrow> if in_window e t' i then Some p else None))"
  obtain consumed where r: "deletedpoints s' = deletedpoints s @ consumed"
    and pt: "\<And>i. i < ?n \<Longrightarrow>
          curr_points s' ! i = (if i \<in> set consumed then None else windowed i) \<and>
          curr_resolved_plate_boundaries s' ! i =
            (case windowed i of
               None \<Rightarrow> None
             | Some p \<Rightarrow> find_polygon lib p
                 (resolve_topologies lib (topology_features e) (rotation_model e) t')) \<and>
          curr_topology_plate_ids s' ! i =
            map_option (get_reconstruction_plate_id lib) (curr_resolved_plate_boundaries s' ! i)"
    using step_result [OF wf nf assms(3)]
    unfolding t_def t'_def moved_def windowed_def by blast
  have c: "consumed_in_step s s' = consumed" using r by (simp add: consumed_in_step_def)
  have "curr_topology_plate_ids s' ! i = None \<and> curr_resolved_plate_boundaries s' ! i = None"
    if i: "i < ?n" and none: "curr_points s' ! i = None"
      and unconsumed: "i \<notin> set (consumed_in_step s s')" for i
  proof -
    have "windowed i = None" using pt [OF i] none unconsumed c by simp
    then show ?thesis using pt [OF i] by simp
  qed
  then show ?thesis using first by blast
qed

theorem inactive_points_have_no_membership_witness:
  "\<exists>e s s'.
     ReconstructByTopologies_init example_rotation_model example_no_topologies 10 0 1 [0]
       None None (Some [101]) None = Inr e \<and>
     steps 0 example_library e (begin_reconstruction example_library e ()) = Inr s \<and>
     reconstruct_to_next_time example_library e s = Inr (True, s') \<and>
     0 < num_points e \<and> curr_points s' ! 0 = None \<and> 0 \<notin> set (consumed_in_step s s') \<and>
     curr_topology_plate_ids s' ! 0 = None \<and> curr_resolved_plate_boundaries s' ! 0 = None"
proof -
  let ?e = "example_engine example_no_topologies None
              :: (int, int, example_plate, real \<Rightarrow> example_plate list, unit) engine"
  let ?s0 = "begin_reconstruction example_library ?e ()"
  have run: "map_sum id (\<lambda>r. (fst r, curr_points (snd r), consumed_in_step ?s0 (snd r)))
               (reconstruct_to_next_time example_library ?e ?s0) = Inr (True, [None], [])"
    by code_simp
  then obtain s' where s': "reconstruct_to_next_time example_library ?e ?s0 = Inr (True, s')"
    "curr_points s' = [None]" "consumed_in_step ?s0 s' = []"
    by (cases "reconstruct_to_next_time example_library ?e ?s0") auto
  have n: "0 < num_points ?e" by (simp add: example_engine_def)
  have s0: "steps 0 example_library ?e ?s0 = Inr ?s0" by simp
  have "curr_topology_plate_ids s' ! 0 = None \<and> curr_resolved_plate_boundaries s' ! 0 = None"
    using inactive_points_have_no_membership [OF example_engine_init s0 s'(1)] n s'(2,3)
    by simp
  then show ?thesis
    using example_engine_init [of example_no_topologies "None"] s0 s' n
    by (intro exI [of _ ?e] exI [of _ ?s0] exI [of _ s']) simp
qed

text \<open>The claim as the specification states it fails: the default collision callable consumes
  the point of this run in the first step (its plate changes from 101 to 202), and at the end
  of that step the point has no current position but still has the plate id 202 and the
  boundary of plate 202.\<close>

theorem consumed_point_keeps_membership:
  "map_sum id current_slots
     (steps 1 example_library
        (example_engine example_changing_topologies (Some DEFAULT_COLLISION))
        (begin_reconstruction example_library
           (example_engine example_changing_topologies (Some DEFAULT_COLLISION))
           DEFAULT_COLLISION_state))
   = Inr [(None, Some 202, Some (202, 0, 5))]"
  by code_simp

section \<open>The main loop\<close>

lemma get_active_current_points_filter:
  "map Some (get_active_current_points s) = filter (\<lambda>point. point \<noteq> None) (curr_points s)"
proof -
  have "map Some [p. Some p \<leftarrow> xs] = filter (\<lambda>point. point \<noteq> None) xs"
    for xs :: "'a option list"
    by (induction xs) (auto split: option.splits)
  then show ?thesis
    by (simp add: get_active_current_points_def get_all_current_points_def)
qed

text \<open>The loop ends, at the first state in which one of the two stopping tests holds, or
  with the exception that the collision callable raised on the way.\<close>

lemma reconstruct_loop_result:
  fixes lib :: "('p, 'r, 'b, 'tf) pygplates" and e :: "('p, 'r, 'b, 'tf, 'ps) engine"
  assumes "wf_state e s" and "current_time_index s \<le> last_time_index e"
    and "n = nat (last_time_index e - current_time_index s)"
  shows "\<exists>k sk. steps k lib e s = Inr sk \<and>
           (\<forall>j<k. \<exists>sj. steps j lib e s = Inr sj \<and> \<not> finished e sj) \<and>
           ((finished e sk \<and> reconstruct_loop lib e s = Some (Inr sk)) \<or>
            (\<not> finished e sk \<and>
             (\<exists>err. reconstruct_to_next_time lib e sk = Inl err \<and>
                    reconstruct_loop lib e s = Some (Inl err))))"
  using assms
proof (induction n arbitrary: s)
  case 0
  then have fin: "finished e s" by (simp add: finished_def)
  have "reconstruct_loop lib e s = Some (Inr s)"
    using reconstruct_to_next_time_finished [OF fin, of lib]
    by (subst reconstruct_loop.simps) simp
  then show ?case using fin by (intro exI [of _ 0] exI [of _ s]) simp
next
  case (Suc n)
  show ?case
  proof (cases "finished e s")
    case True
    have "reconstruct_loop lib e s = Some (Inr s)"
      using reconstruct_to_next_time_finished [OF True, of lib]
      by (subst reconstruct_loop.simps) simp
    then show ?thesis using True by (intro exI [of _ 0] exI [of _ s]) simp
  next
    case False
    show ?thesis
    proof (cases "reconstruct_to_next_time lib e s")
      case (Inl err)
      have "reconstruct_loop lib e s = Some (Inl err)"
        using Inl by (subst reconstruct_loop.simps) simp
      then show ?thesis using False Inl by (intro exI [of _ 0] exI [of _ s]) simp
    next
      case (Inr r)
      obtain progress s1 where r: "r = (progress, s1)" by (cases r)
      have st: "reconstruct_to_next_time lib e s = Inr (progress, s1)" using Inr r by simp
      have res: "progress" "wf_state e s1" "current_time_index s1 = current_time_index s + 1"
        using step_result [OF Suc.prems(1) False st] by simp_all
      have le: "current_time_index s1 \<le> last_time_index e"
        and m: "n = nat (last_time_index e - current_time_index s1)"
        using Suc.prems(2,3) res(3) by linarith+
      obtain k sk where k: "steps k lib e s1 = Inr sk"
        "\<forall>j<k. \<exists>sj. steps j lib e s1 = Inr sj \<and> \<not> finished e sj"
        "(finished e sk \<and> reconstruct_loop lib e s1 = Some (Inr sk)) \<or>
            (\<not> finished e sk \<and>
             (\<exists>err. reconstruct_to_next_time lib e sk = Inl err \<and>
                    reconstruct_loop lib e s1 = Some (Inl err)))"
        using Suc.IH [OF res(2) le m] by blast
      have loop: "reconstruct_loop lib e s = reconstruct_loop lib e s1"
        using st res(1) by (subst reconstruct_loop.simps) simp
      have next_steps: "steps (Suc j) lib e s = steps j lib e s1" for j
        using st by simp
      have before: "\<exists>sj. steps j lib e s = Inr sj \<and> \<not> finished e sj" if j: "j < Suc k" for j
      proof (cases j)
        case 0
        then show ?thesis using False by simp
      next
        case (Suc j')
        then have "j' < k" using j by simp
        then show ?thesis using k(2) next_steps [of j'] Suc by simp
      qed
      show ?thesis
        using k(1,3) before next_steps [of k] loop
        by (intro exI [of _ "Suc k"] exI [of _ sk]) simp
    qed
  qed
qed

subsection \<open>The counter of activated points\<close>

lemma count_set_flag:
  "i < length flags \<Longrightarrow> \<not> flags ! i \<Longrightarrow>
     length (filter (\<lambda>flag. flag) (flags[i := True])) = Suc (length (filter (\<lambda>flag. flag) flags))"
proof (induction flags arbitrary: i)
  case Nil
  then show ?case by simp
next
  case (Cons x xs)
  then show ?case by (cases i) simp_all
qed

lemma all_flags_iff_count:
  "length (filter (\<lambda>flag. flag) flags) = length flags \<longleftrightarrow> list_all (\<lambda>flag. flag) flags"
proof (induction flags)
  case Nil
  show ?case by simp
next
  case (Cons x xs)
  have "length (filter (\<lambda>flag. flag) xs) \<le> length xs" by simp
  then have "length (filter (\<lambda>flag. flag) xs) \<noteq> Suc (length xs)" by linarith
  then show ?case using Cons by auto
qed

lemma activation_counted_activate:
  assumes "activation_counted e s"
  shows "activation_counted e (activate_deactivate_points e s)"
proof -
  let ?t = "get_current_time e s"
  let ?Q = "\<lambda>(k :: nat) u. activation_counted e u"
  have step: "?Q (Suc i) (activate_deactivate_point e ?t i u)"
    if i: "i < num_points e" and Q: "?Q i u" for i u
  proof -
    have len: "i < length (point_has_been_activated u)"
      using Q i by (simp add: activation_counted_def wf_state_def)
    show ?thesis
      using Q count_set_flag [OF len]
      by (simp add: activation_counted_def wf_state_def activate_deactivate_point_def)
  qed
  have "?Q (num_points e) (fold (activate_deactivate_point e ?t) [0..<num_points e] s)"
    by (rule fold_upt_induct [where Q = ?Q, OF _ step]) (use assms in simp_all)
  then show ?thesis by (simp add: activate_deactivate_points_def)
qed

lemma activation_counted_begin:
  fixes lib :: "('p, 'r, 'b, 'tf) pygplates" and e :: "('p, 'r, 'b, 'tf, 'ps) engine"
    and ps :: 'ps
  shows "activation_counted e (begin_reconstruction lib e ps)"
proof -
  define i0 :: "('p, 'b, 'ps) state" where "i0 =
          \<lparr> current_time_index = 0,
            prev_points = replicate (num_points e) None,
            curr_points = replicate (num_points e) None,
            next_points = replicate (num_points e) None,
            point_has_been_activated = replicate (num_points e) False,
            num_activated_points = 0,
            prev_topology_plate_ids = replicate (num_points e) None,
            curr_topology_plate_ids = replicate (num_points e) None,
            prev_resolved_plate_boundaries = replicate (num_points e) None,
            curr_resolved_plate_boundaries = replicate (num_points e) None,
            deletedpoints = [],
            collision_state = ps \<rparr>"
  have "activation_counted e i0"
    by (simp add: activation_counted_def wf_state_def i0_def)
  then have a: "activation_counted e (activate_deactivate_points e i0)"
    by (rule activation_counted_activate)
  then have "wf_state e (activate_deactivate_points e i0)"
    by (simp add: activation_counted_def)
  from find_resolved_topologies_result [OF this, of lib] a
  have "activation_counted e
          (find_resolved_topologies_containing_points lib e (activate_deactivate_points e i0))"
    by (simp add: activation_counted_def topology_frame_def)
  then show ?thesis by (simp add: begin_reconstruction_def i0_def)
qed

lemma activation_counted_step:
  assumes inv: "activation_counted e s"
    and st: "reconstruct_to_next_time lib e s = Inr (progress, s')"
  shows "activation_counted e s'"
proof (cases "finished e s")
  case True
  then have "s' = s" using st reconstruct_to_next_time_finished [OF True, of lib] by simp
  then show ?thesis using inv by simp
next
  case False
  have wf: "wf_state e s" using inv by (simp add: activation_counted_def)
  define s1 where "s1 = rotate_buffers lib e s"
  define s2 where "s2 = activate_deactivate_points e s1"
  define s3 where "s3 = find_resolved_topologies_containing_points lib e s2"
  have "length (curr_points s1) = num_points e"
    using reconstruct_points_result [OF wf, of lib] by (simp add: s1_def rotate_buffers_def)
  then have "activation_counted e s1"
    using inv by (simp add: activation_counted_def wf_state_def s1_def rotate_buffers_def)
  then have a2: "activation_counted e s2"
    unfolding s2_def by (rule activation_counted_activate)
  then have "wf_state e s2" by (simp add: activation_counted_def)
  from find_resolved_topologies_result [OF this, of lib] a2
  have a3: "activation_counted e s3"
    by (simp add: activation_counted_def topology_frame_def s3_def)
  then have wf3: "wf_state e s3" by (simp add: activation_counted_def)
  have unfolded: "reconstruct_to_next_time lib e s =
     (case detect_collisions e of
        None \<Rightarrow> Inr (True, s3)
      | Some detect \<Rightarrow>
          (case fold (detect_collision_at e detect (get_current_time e s3))
                  [0..<num_points e] (Inr s3) of
             Inl err \<Rightarrow> Inl err
           | Inr s4 \<Rightarrow> Inr (True, s4)))"
    unfolding s3_def s2_def s1_def
    using reconstruct_to_next_time_unfinished [OF False, of lib] by (simp add: Let_def)
  show ?thesis
  proof (cases "detect_collisions e")
    case None
    then show ?thesis using st unfolded a3 by simp
  next
    case (Some detect)
    then have run:
      "fold (detect_collision_at e detect (get_current_time e s3)) [0..<num_points e] (Inr s3)
         = Inr s'"
      using st unfolded by (auto split: sum.splits)
    show ?thesis
      using detect_collisions_result [OF wf3 run] a3
      by (simp add: activation_counted_def collision_frame_def)
  qed
qed

lemma activation_counted_steps:
  "activation_counted e s \<Longrightarrow> steps k lib e s = Inr s' \<Longrightarrow> activation_counted e s'"
proof (induction k arbitrary: s)
  case 0
  then show ?case by simp
next
  case (Suc k)
  from Suc.prems(2) obtain progress s1 where
    st: "reconstruct_to_next_time lib e s = Inr (progress, s1)" and
    rest: "steps k lib e s1 = Inr s'"
    by (auto split: sum.splits)
  show ?case
    using Suc.IH [OF activation_counted_step [OF Suc.prems(1) st] rest] .
qed

text \<open>In a state that the engine reaches, the second stopping test says that every point has
  been activated and no point is current.\<close>

lemma finished_meaning:
  assumes "activation_counted e s"
  shows "finished e s \<longleftrightarrow>
     current_time_index s = last_time_index e \<or>
     (list_all (\<lambda>flag. flag) (point_has_been_activated s) \<and>
      list_all (\<lambda>point. point = None) (curr_points s))"
proof -
  have "num_activated_points s = num_points e \<longleftrightarrow>
          list_all (\<lambda>flag. flag) (point_has_been_activated s)"
    using assms all_flags_iff_count [of "point_has_been_activated s"]
    by (simp add: activation_counted_def wf_state_def)
  moreover have "\<not> list_ex (\<lambda>point. point \<noteq> None) (curr_points s) \<longleftrightarrow>
          list_all (\<lambda>point. point = None) (curr_points s)"
    by (simp add: list_ex_iff list_all_iff)
  ultimately show ?thesis by (simp add: finished_def)
qed

text \<open>
  Claim C7. \<open>reconstruct_to_next_time\<close> returns \<open>False\<close> exactly in a state in which the time
  index is the last one, or every point has been activated and no current point is present;
  it then leaves the state as it is; in the states that the engine reaches, the counter of
  activated points equals the number of points exactly when every point's flag is set. For an
  engine that construction returns, \<open>reconstruct\<close>
  ends (it returns, or passes on the exception that the collision callable raised). When it
  returns, the state it returns from is reached after some number \<open>k\<close> of steps, one of the two
  stopping tests holds in it and in none of the states before it, and the result is the list of
  the current points that are present, in their order.
\<close>

theorem reconstruct_main_loop:
  assumes "ReconstructByTopologies_init rm tf b en dt pts bts ets pids dc = Inr e"
  shows "(\<forall>s. (\<exists>s'. reconstruct_to_next_time lib e s = Inr (False, s')) \<longleftrightarrow> finished e s) \<and>
    (\<forall>s. finished e s \<longrightarrow> reconstruct_to_next_time lib e s = Inr (False, s)) \<and>
    (\<exists>r. reconstruct lib e ps = Some r) \<and>
    (detect_collisions e = None \<longrightarrow> (\<exists>out. reconstruct lib e ps = Some (Inr out))) \<and>
    (\<forall>out. reconstruct lib e ps = Some (Inr out) \<longrightarrow>
       (\<exists>k sk. steps k lib e (begin_reconstruction lib e ps) = Inr sk \<and>
          finished e sk \<and>
          (\<forall>j<k. \<exists>sj. steps j lib e (begin_reconstruction lib e ps) = Inr sj \<and>
                       \<not> finished e sj) \<and>
          out = get_active_current_points sk \<and>
          map Some out = filter (\<lambda>point. point \<noteq> None) (curr_points sk))) \<and>
    (\<forall>k sk. steps k lib e (begin_reconstruction lib e ps) = Inr sk \<longrightarrow>
       (finished e sk \<longleftrightarrow>
          current_time_index sk = last_time_index e \<or>
          (list_all (\<lambda>flag. flag) (point_has_been_activated sk) \<and>
           list_all (\<lambda>point. point = None) (curr_points sk))))"
proof -
  let ?s0 = "begin_reconstruction lib e ps"
  have meaning: "finished e sk \<longleftrightarrow>
          current_time_index sk = last_time_index e \<or>
          (list_all (\<lambda>flag. flag) (point_has_been_activated sk) \<and>
           list_all (\<lambda>point. point = None) (curr_points sk))"
    if "steps k lib e ?s0 = Inr sk" for k sk
    by (rule finished_meaning [OF activation_counted_steps [OF activation_counted_begin that]])
  have stop: "(\<exists>s'. reconstruct_to_next_time lib e s = Inr (False, s')) \<longleftrightarrow> finished e s" for s
  proof
    assume "\<exists>s'. reconstruct_to_next_time lib e s = Inr (False, s')"
    then obtain s' where ret: "reconstruct_to_next_time lib e s = Inr (False, s')" by blast
    show "finished e s"
    proof (rule ccontr)
      assume nf: "\<not> finished e s"
      show False
        using reconstruct_to_next_time_unfinished [OF nf, of lib] ret
        by (auto simp: Let_def split: option.splits sum.splits)
    qed
  next
    assume "finished e s"
    then show "\<exists>s'. reconstruct_to_next_time lib e s = Inr (False, s')"
      using reconstruct_to_next_time_finished [of e s lib] by simp
  qed
  have wf0: "wf_state e ?s0" "current_time_index ?s0 = 0"
    using begin_reconstruction_result [where lib = lib and e = e and ps = ps] by simp_all
  have "1 \<le> last_time_index e" using init_wf_engine [OF assms] by (simp add: wf_engine_def)
  then have le: "current_time_index ?s0 \<le> last_time_index e" using wf0(2) by simp
  obtain k sk where k: "steps k lib e ?s0 = Inr sk"
    "\<forall>j<k. \<exists>sj. steps j lib e ?s0 = Inr sj \<and> \<not> finished e sj"
    "(finished e sk \<and> reconstruct_loop lib e ?s0 = Some (Inr sk)) \<or>
        (\<not> finished e sk \<and>
         (\<exists>err. reconstruct_to_next_time lib e sk = Inl err \<and>
                reconstruct_loop lib e ?s0 = Some (Inl err)))"
    using reconstruct_loop_result [OF wf0(1) le refl, of lib] by blast
  have ends: "\<exists>r. reconstruct lib e ps = Some r"
    using k(3) by (auto simp: reconstruct_def)
  have no_raise: "\<exists>out. reconstruct lib e ps = Some (Inr out)" if "detect_collisions e = None"
  proof -
    have "reconstruct_to_next_time lib e sk \<noteq> Inl err" if "\<not> finished e sk" for err
      using reconstruct_to_next_time_unfinished [OF that, of lib] \<open>detect_collisions e = None\<close>
      by (simp add: Let_def)
    then show ?thesis using k(3) by (auto simp: reconstruct_def)
  qed
  have returned: "\<exists>k sk. steps k lib e ?s0 = Inr sk \<and> finished e sk \<and>
          (\<forall>j<k. \<exists>sj. steps j lib e ?s0 = Inr sj \<and> \<not> finished e sj) \<and>
          out = get_active_current_points sk \<and>
          map Some out = filter (\<lambda>point. point \<noteq> None) (curr_points sk)"
    if out: "reconstruct lib e ps = Some (Inr out)" for out
  proof -
    have "finished e sk \<and> out = get_active_current_points sk"
      using k(3) out by (auto simp: reconstruct_def)
    then show ?thesis
      using k(1,2) get_active_current_points_filter [of sk] by blast
  qed
  show ?thesis
    using stop reconstruct_to_next_time_finished [of e _ lib] ends no_raise returned meaning
    by blast
qed

theorem reconstruct_main_loop_witness:
  "\<exists>e. ReconstructByTopologies_init example_rotation_model example_vanishing_topologies 10 0 1
          [0] None None (Some [101]) (None :: (int, int, example_plate, unit) policy option)
          = Inr e \<and>
        detect_collisions e = None \<and>
        (\<exists>out. reconstruct example_library e () = Some (Inr out)) \<and>
        finished e (begin_reconstruction example_library e ()
                      \<lparr> current_time_index := last_time_index e \<rparr>) \<and>
        reconstruct_to_next_time example_library e
          (begin_reconstruction example_library e () \<lparr> current_time_index := last_time_index e \<rparr>)
          = Inr (False, begin_reconstruction example_library e ()
                          \<lparr> current_time_index := last_time_index e \<rparr>)"
proof -
  let ?e = "example_engine example_vanishing_topologies None
              :: (int, int, example_plate, real \<Rightarrow> example_plate list, unit) engine"
  let ?s = "begin_reconstruction example_library ?e () \<lparr> current_time_index := last_time_index ?e \<rparr>"
  note main = reconstruct_main_loop
     [OF example_engine_init [of example_vanishing_topologies
           "None :: (int, int, example_plate, unit) policy option"],
      where lib = example_library and ps = "()"]
  have none: "detect_collisions ?e = None" by (simp add: example_engine_def)
  have fin: "finished ?e ?s" by (simp add: finished_def)
  have "\<exists>out. reconstruct example_library ?e () = Some (Inr out)"
    using main none by blast
  moreover have "reconstruct_to_next_time example_library ?e ?s = Inr (False, ?s)"
    using main fin by blast
  ultimately show ?thesis
    using example_engine_init [of example_vanishing_topologies None] none fin
    by (intro exI [of _ ?e]) simp
qed

section \<open>Points outside every resolved topology\<close>

text \<open>
  Claim C1 fails on the source. In \<open>reconstruct_to_next_time\<close> the branch for a current point
  without topology plate id assigns the point's own plate id and then executes \<open>continue\<close>, so
  \<open>next_points\<close> keeps the entry that the buffer held two steps earlier. In this run (one point
  at 0 with plate id 101, from 10 Ma to 0 Ma) the point moves with plate 101 from 0 to 1 to 2;
  at 8 Ma it is at 2 and outside every resolved topology. The rotation of its own plate 101
  would take it to 3; the next step makes its current position 0, its position at 10 Ma.
\<close>

theorem fallback_plate_id_not_applied:
  "ReconstructByTopologies_init example_rotation_model example_vanishing_topologies 10 0 1 [0]
     None None (Some [101]) None = Inr stale_point_engine \<and>
   map_sum id current_slots
     (steps 2 example_library stale_point_engine
        (begin_reconstruction example_library stale_point_engine ()))
     = Inr [(Some 2, None, None)] \<and>
   map_sum id (get_current_time stale_point_engine)
     (steps 2 example_library stale_point_engine
        (begin_reconstruction example_library stale_point_engine ()))
     = Inr 8 \<and>
   rotate example_library
     (rotation_model stale_point_engine (8 + reconstruction_time_step stale_point_engine)
        (point_plate_ids stale_point_engine ! 0) 8) 2 = 3 \<and>
   map_sum id curr_points
     (steps 3 example_library stale_point_engine
        (begin_reconstruction example_library stale_point_engine ()))
     = Inr [Some 0]"
proof -
  have "ReconstructByTopologies_init example_rotation_model example_vanishing_topologies 10 0 1
     [0] None None (Some [101]) None = Inr stale_point_engine"
    unfolding stale_point_engine_def by (rule example_engine_init)
  moreover have "map_sum id current_slots
     (steps 2 example_library stale_point_engine
        (begin_reconstruction example_library stale_point_engine ()))
     = Inr [(Some 2, None, None)]"
    by code_simp
  moreover have "map_sum id (get_current_time stale_point_engine)
     (steps 2 example_library stale_point_engine
        (begin_reconstruction example_library stale_point_engine ()))
     = Inr 8"
    by code_simp
  moreover have "rotate example_library
     (rotation_model stale_point_engine (8 + reconstruction_time_step stale_point_engine)
        (point_plate_ids stale_point_engine ! 0) 8) 2 = 3"
    by code_simp
  moreover have "map_sum id curr_points
     (steps 3 example_library stale_point_engine
        (begin_reconstruction example_library stale_point_engine ()))
     = Inr [Some 0]"
    by code_simp
  ultimately show ?thesis by blast
qed

text \<open>
  Claim C2 fails on the source, through the same \<open>continue\<close>. The point of this run has the
  default window (always eligible) and the engine has no collision callable. The point is
  active at 10 Ma, outside every resolved topology, and the buffer that receives nothing for it
  still holds its initial \<open>None\<close>: at 9 Ma, a time inside its window, the point is inactive, and
  nothing was recorded in \<open>deletedpoints\<close>.
\<close>

theorem window_not_tracked_outside_topologies:
  "ReconstructByTopologies_init example_rotation_model example_no_topologies 10 0 1 [0]
     None None (Some [101]) None = Inr lost_point_engine \<and>
   detect_collisions lost_point_engine = None \<and>
   curr_points (begin_reconstruction example_library lost_point_engine ()) = [Some 0] \<and>
   map_sum id (get_current_time lost_point_engine)
     (steps 1 example_library lost_point_engine
        (begin_reconstruction example_library lost_point_engine ()))
     = Inr 9 \<and>
   in_window lost_point_engine 9 0 \<and>
   map_sum id curr_points
     (steps 1 example_library lost_point_engine
        (begin_reconstruction example_library lost_point_engine ()))
     = Inr [None] \<and>
   map_sum id deletedpoints
     (steps 1 example_library lost_point_engine
        (begin_reconstruction example_library lost_point_engine ()))
     = Inr []"
proof -
  have "ReconstructByTopologies_init example_rotation_model example_no_topologies 10 0 1 [0]
     None None (Some [101]) None = Inr lost_point_engine"
    unfolding lost_point_engine_def by (rule example_engine_init)
  moreover have "detect_collisions lost_point_engine = None"
    by (simp add: lost_point_engine_def example_engine_def)
  moreover have
    "curr_points (begin_reconstruction example_library lost_point_engine ()) = [Some 0]"
    by code_simp
  moreover have "map_sum id (get_current_time lost_point_engine)
     (steps 1 example_library lost_point_engine
        (begin_reconstruction example_library lost_point_engine ()))
     = Inr 9"
    by code_simp
  moreover have "in_window lost_point_engine 9 0"
    by (simp add: in_window_def lost_point_engine_def example_engine_def)
  moreover have "map_sum id curr_points
     (steps 1 example_library lost_point_engine
        (begin_reconstruction example_library lost_point_engine ()))
     = Inr [None]"
    by code_simp
  moreover have "map_sum id deletedpoints
     (steps 1 example_library lost_point_engine
        (begin_reconstruction example_library lost_point_engine ()))
     = Inr []"
    by code_simp
  ultimately show ?thesis by blast
qed

section \<open>The default collision policy\<close>





section \<open>The continental collision policy\<close>

lemma load_grid_result:
  assumes "load_grid raster dir time self = Inr self1"
  shows "grid_time self1 = Some time \<and> chain_state self1 = chain_state self \<and>
    (Some time \<noteq> grid_time self \<longrightarrow>
       (\<exists>grid. read_netcdf_grid raster dir time = Inr grid \<and> f self1 = Some grid) \<and>
       continent_deletion_count self1 = Some 0) \<and>
    (Some time = grid_time self \<longrightarrow> self1 = self)"
  using assms by (auto simp: load_grid_def split: if_splits sum.splits)

lemma load_grid_again:
  "load_grid raster dir time self = Inr self1 \<Longrightarrow> load_grid raster dir time self1 = Inr self1"
  by (auto simp: load_grid_def split: if_splits sum.splits)

lemma ContinentCollision_call_after_load:
  assumes "load_grid raster dir time self = Inr self1"
  shows "ContinentCollision_call raster dir chain rot_model time time_interval prev_point
           curr_point prev_id prev_boundary curr_id curr_boundary self
       = ContinentCollision_call raster dir chain rot_model time time_interval prev_point
           curr_point prev_id prev_boundary curr_id curr_boundary self1"
  using assms load_grid_again [OF assms] by (simp add: ContinentCollision_call_def)

text \<open>
  Claim C9. Let the grid of the query's time be loaded (\<open>load_grid\<close> returns the object with
  interpolator \<open>interpolator\<close> and counter \<open>n\<close>: the grid just read and 0 when the time is new,
  the attributes of the object otherwise). If the interpolator's value at the longitude and
  latitude of the current point exceeds 0.5, the call returns \<open>True\<close> and the counter becomes
  \<open>n + 1\<close>. Otherwise the call returns \<open>False\<close> when no callable is chained, and when one is
  chained it returns what that callable returns (its verdict, or its exception), the chained
  callable being called with the same arguments.
\<close>

theorem continent_collision_decision:
  assumes "load_grid raster dir time self = Inr self1"
    and "f self1 = Some interpolator"
    and "continent_deletion_count self1 = Some n"
  shows
   "(sampled raster interpolator curr_point > 1 / 2 \<longrightarrow>
       ContinentCollision_call raster dir chain rot_model time time_interval prev_point
         curr_point prev_id prev_boundary curr_id curr_boundary self
       = Inr (True, self1\<lparr> continent_deletion_count := Some (n + 1) \<rparr>)) \<and>
    (\<not> sampled raster interpolator curr_point > 1 / 2 \<longrightarrow>
       (chain = None \<longrightarrow>
          ContinentCollision_call raster dir chain rot_model time time_interval prev_point
            curr_point prev_id prev_boundary curr_id curr_boundary self
          = Inr (False, self1)) \<and>
       (\<forall>chained. chain = Some chained \<longrightarrow>
          map_sum id fst
            (ContinentCollision_call raster dir chain rot_model time time_interval prev_point
               curr_point prev_id prev_boundary curr_id curr_boundary self)
          = map_sum id fst
              (chained rot_model time time_interval prev_point curr_point
                 prev_id prev_boundary curr_id curr_boundary (chain_state self)))) \<and>
    (Some time \<noteq> grid_time self \<longrightarrow>
       read_netcdf_grid raster dir time = Inr interpolator \<and> n = 0) \<and>
    (Some time = grid_time self \<longrightarrow>
       f self = Some interpolator \<and> continent_deletion_count self = Some n)"
proof -
  have cs: "chain_state self1 = chain_state self"
    using load_grid_result [OF assms(1)] by simp
  have hit: "ContinentCollision_call raster dir chain rot_model time time_interval prev_point
         curr_point prev_id prev_boundary curr_id curr_boundary self
       = Inr (True, self1\<lparr> continent_deletion_count := Some (n + 1) \<rparr>)"
    if "sampled raster interpolator curr_point > 1 / 2"
    using that assms by (simp add: ContinentCollision_call_def sampled_def)
  have unchained: "ContinentCollision_call raster dir chain rot_model time time_interval
            prev_point curr_point prev_id prev_boundary curr_id curr_boundary self
          = Inr (False, self1)"
    if "\<not> sampled raster interpolator curr_point > 1 / 2" "chain = None"
    using that assms by (simp add: ContinentCollision_call_def sampled_def)
  have chained: "map_sum id fst
            (ContinentCollision_call raster dir chain rot_model time time_interval prev_point
               curr_point prev_id prev_boundary curr_id curr_boundary self)
          = map_sum id fst
              (chained rot_model time time_interval prev_point curr_point
                 prev_id prev_boundary curr_id curr_boundary (chain_state self))"
    if "\<not> sampled raster interpolator curr_point > 1 / 2" "chain = Some chained" for chained
    using that assms cs
    by (auto simp: ContinentCollision_call_def sampled_def split: sum.splits)
  have fresh: "read_netcdf_grid raster dir time = Inr interpolator \<and> n = 0"
    if "Some time \<noteq> grid_time self"
    using that load_grid_result [OF assms(1)] assms(2,3) by auto
  have loaded: "f self = Some interpolator \<and> continent_deletion_count self = Some n"
    if "Some time = grid_time self"
    using that load_grid_result [OF assms(1)] assms(2,3) by auto
  show ?thesis
    using hit unchained chained fresh loaded by blast
qed

theorem continent_collision_decision_witness:
  "load_grid example_raster ''grids'' 10 example_continent_state = Inr example_continent_state \<and>
   f example_continent_state = Some (\<lambda>lon lat. if lon \<ge> 3 then 1 else 0) \<and>
   continent_deletion_count example_continent_state = Some 7 \<and>
   sampled example_raster (\<lambda>lon lat. if lon \<ge> 3 then 1 else 0) 4 > 1 / 2 \<and>
   ContinentCollision_call example_raster ''grids''
     (None :: (int, int, example_plate, unit) policy option) example_rotation_model 10 1 3 4
     (Some 101) (Some (101, 0, 5)) (Some 101) (Some (101, 0, 5)) example_continent_state
   = Inr (True, example_continent_state\<lparr> continent_deletion_count := Some 8 \<rparr>) \<and>
   \<not> sampled example_raster (\<lambda>lon lat. if lon \<ge> 3 then 1 else 0) 1 > 1 / 2 \<and>
   ContinentCollision_call example_raster ''grids''
     (None :: (int, int, example_plate, unit) policy option) example_rotation_model 10 1 0 1
     (Some 101) (Some (101, 0, 5)) (Some 101) (Some (101, 0, 5)) example_continent_state
   = Inr (False, example_continent_state)"
proof -
  have l: "load_grid example_raster ''grids'' 10 example_continent_state
             = Inr example_continent_state"
    by (simp add: load_grid_def example_continent_state_def)
  have i: "f example_continent_state = Some (\<lambda>lon lat. if lon \<ge> 3 then 1 else 0)"
    by (simp add: example_continent_state_def)
  have c: "continent_deletion_count example_continent_state = Some 7"
    by (simp add: example_continent_state_def)
  have s4: "sampled example_raster (\<lambda>lon lat. if lon \<ge> 3 then 1 else 0) 4 > 1 / 2"
    by (simp add: sampled_def example_raster_def)
  have s1: "\<not> sampled example_raster (\<lambda>lon lat. if lon \<ge> 3 then 1 else 0) 1 > 1 / 2"
    by (simp add: sampled_def example_raster_def)
  show ?thesis
    using continent_collision_decision [OF l i c,
            where curr_point = 4 and prev_point = 3 and rot_model = example_rotation_model
              and time_interval = 1 and prev_id = "Some 101" and curr_id = "Some 101"
              and prev_boundary = "Some (101, 0, 5)" and curr_boundary = "Some (101, 0, 5)"
              and chain = "None :: (int, int, example_plate, unit) policy option"]
          continent_collision_decision [OF l i c,
            where curr_point = 1 and prev_point = 0 and rot_model = example_rotation_model
              and time_interval = 1 and prev_id = "Some 101" and curr_id = "Some 101"
              and prev_boundary = "Some (101, 0, 5)" and curr_boundary = "Some (101, 0, 5)"
              and chain = "None :: (int, int, example_plate, unit) policy option"]
          l i c s4 s1
    by simp
qed

subsection \<open>The deletion counter\<close>

lemma continent_calls_same_time:
  assumes "grid_time self = Some time" and "f self = Some grid"
    and "continent_deletion_count self = Some n"
    and "\<forall>q \<in> set qs. fst q = time"
    and "continent_calls raster dir chain rot_model time_interval qs self = Inr self'"
  shows "grid_time self' = Some time \<and> f self' = Some grid \<and>
     continent_deletion_count self' =
       Some (n + int (length (filter (\<lambda>q. sampled raster grid (query_point q) > 1 / 2) qs)))"
  using assms
proof (induction qs arbitrary: self n)
  case Nil
  then show ?case by simp
next
  case (Cons q qs)
  obtain t pp cp pid pb cid cb where q: "q = (t, pp, cp, pid, pb, cid, cb)"
    by (cases q) auto
  have t: "t = time" using Cons.prems(4) q by simp
  have l: "load_grid raster dir time self = Inr self"
    using Cons.prems(1) by (simp add: load_grid_def)
  obtain collided self1 where call:
    "ContinentCollision_call raster dir chain rot_model time time_interval pp cp pid pb cid cb
       self = Inr (collided, self1)"
    and rest: "continent_calls raster dir chain rot_model time_interval qs self1 = Inr self'"
    using Cons.prems(5) by (auto simp: q t split: sum.splits)
  let ?hit = "sampled raster grid cp > 1 / 2"
  have s1: "grid_time self1 = Some time" "f self1 = Some grid"
    "continent_deletion_count self1 = Some (n + (if ?hit then 1 else 0))"
    using call l Cons.prems(1,2,3)
    by (auto simp: ContinentCollision_call_def sampled_def
             split: if_splits option.splits sum.splits)
  have "\<forall>q \<in> set qs. fst q = time" using Cons.prems(4) by simp
  from Cons.IH [OF s1(1,2,3) this rest]
  show ?case by (simp add: q query_point_def)
qed

text \<open>
  Claim C10. Take a \<open>ContinentCollision\<close> object in any state, with any value of the counter,
  and then one or more calls at a time \<open>time\<close> other than the time of the loaded grid. The first
  of these calls loads the grid of \<open>time\<close> and sets the counter to 0; after the calls the
  counter is the number of those calls whose current point lies in the continent of that grid,
  whatever it had counted before.
\<close>

theorem deletion_count_restarts_with_each_grid:
  assumes "Some time \<noteq> grid_time self"
    and "read_netcdf_grid raster dir time = Inr grid"
    and "qs \<noteq> []"
    and "\<forall>q \<in> set qs. fst q = time"
    and "continent_calls raster dir chain rot_model time_interval qs self = Inr self'"
  shows "grid_time self' = Some time \<and>
     continent_deletion_count self' =
       Some (int (length (filter (\<lambda>q. sampled raster grid (query_point q) > 1 / 2) qs)))"
proof -
  define loaded where "loaded =
     self\<lparr> grid_time := Some time, continent_deletion_count := Some 0, f := Some grid \<rparr>"
  have l: "load_grid raster dir time self = Inr loaded"
    using assms(1,2) by (simp add: load_grid_def loaded_def)
  obtain q rest where qs: "qs = q # rest" using assms(3) by (cases qs) auto
  obtain t pp cp pid pb cid cb where q: "q = (t, pp, cp, pid, pb, cid, cb)"
    by (cases q) auto
  have t: "t = time" using assms(4) qs q by simp
  have "continent_calls raster dir chain rot_model time_interval qs self
      = continent_calls raster dir chain rot_model time_interval qs loaded"
    using ContinentCollision_call_after_load [OF l, of chain rot_model time_interval pp cp pid pb cid cb]
    by (simp add: qs q t)
  then have run: "continent_calls raster dir chain rot_model time_interval qs loaded = Inr self'"
    using assms(5) by simp
  have "grid_time loaded = Some time" "f loaded = Some grid"
    "continent_deletion_count loaded = Some 0"
    by (simp_all add: loaded_def)
  from continent_calls_same_time [OF this assms(4) run]
  show ?thesis by simp
qed

theorem deletion_count_restarts_with_each_grid_witness:
  "\<exists>self'. Some 9 \<noteq> grid_time example_continent_state \<and>
     continent_deletion_count example_continent_state = Some 7 \<and>
     (\<forall>q \<in> set example_queries. fst q = 9) \<and>
     continent_calls example_raster ''grids''
       (None :: (int, int, example_plate, unit) policy option) example_rotation_model 1
       example_queries example_continent_state = Inr self' \<and>
     continent_deletion_count self' = Some 2"
proof -
  let ?run = "continent_calls example_raster ''grids''
       (None :: (int, int, example_plate, unit) policy option) example_rotation_model 1
       example_queries example_continent_state"
  have new: "Some 9 \<noteq> grid_time example_continent_state"
    by (simp add: example_continent_state_def)
  have old: "continent_deletion_count example_continent_state = Some 7"
    by (simp add: example_continent_state_def)
  have grid: "read_netcdf_grid example_raster ''grids'' 9
                = Inr (\<lambda>lon lat. if lon \<ge> 3 then 1 else 0)"
    by (simp add: example_raster_def)
  have ne: "example_queries \<noteq> []" by (simp add: example_queries_def)
  have same: "\<forall>q \<in> set example_queries. fst q = 9" by (simp add: example_queries_def)
  have "\<not> isl ?run"
    by (simp add: example_queries_def ContinentCollision_call_def load_grid_def
          example_raster_def example_continent_state_def)
  then obtain self' where run: "?run = Inr self'" by (cases ?run) auto
  have "continent_deletion_count self' = Some 2"
    using deletion_count_restarts_with_each_grid [OF new grid ne same run]
    by (simp add: example_queries_def sampled_def query_point_def example_raster_def)
  then show ?thesis using new old same run by blast
qed

section \<open>Activation windows\<close>

text \<open>A window is an interval of times, and the sample times move in one direction.\<close>

lemma in_window_between:
  assumes "in_window e t1 i" and "in_window e t3 i"
    and "(t1 \<le> t2 \<and> t2 \<le> t3) \<or> (t3 \<le> t2 \<and> t2 \<le> t1)"
  shows "in_window e t2 i"
  using assms
  by (cases "point_begin_times e ! i"; cases "point_end_times e ! i")
     (auto simp: in_window_def)

lemma sample_time_between:
  fixes b step :: real and j m n :: int
  assumes "j \<le> m" "m \<le> n"
  shows "(b + of_int j * step \<le> b + of_int m * step \<and> b + of_int m * step \<le> b + of_int n * step) \<or>
         (b + of_int n * step \<le> b + of_int m * step \<and> b + of_int m * step \<le> b + of_int j * step)"
proof (cases "0 \<le> step")
  case True
  have "of_int j * step \<le> of_int m * step" "of_int m * step \<le> of_int n * step"
    using assms True by (simp_all add: mult_right_mono)
  then show ?thesis by simp
next
  case False
  then have neg: "step \<le> 0" by simp
  have "of_int m * step \<le> of_int j * step" "of_int n * step \<le> of_int m * step"
    using assms neg by (simp_all add: mult_right_mono_neg)
  then show ?thesis by simp
qed

text \<open>Where the \<open>continue\<close> of the first loop is never reached for a point (whenever the point
  is active it lies in a resolved topology) and there is no collision callable, the point is
  active at a sample time exactly when that time lies in its window. This is the part of
  claim C2 that the source does satisfy; a sample time never returns into a window that an
  earlier sample time has left.\<close>

lemma window_tracked_inside_topologies:
  fixes lib :: "('p, 'r, 'b, 'tf) pygplates" and e :: "('p, 'r, 'b, 'tf, 'ps) engine"
    and ps :: 'ps
  assumes none: "detect_collisions e = None" and i: "i < num_points e"
    and run: "steps k lib e (begin_reconstruction lib e ps) = Inr s"
    and inside: "\<forall>j<k. \<forall>sj. steps j lib e (begin_reconstruction lib e ps) = Inr sj \<longrightarrow>
        curr_points sj ! i \<noteq> None \<longrightarrow> curr_topology_plate_ids sj ! i \<noteq> None"
  shows "curr_points s ! i \<noteq> None \<longleftrightarrow> in_window e (get_current_time e s) i"
proof -
  let ?s0 = "begin_reconstruction lib e ps"
  let ?tm = "\<lambda>j :: int. reconstruction_begin_time e + of_int j * reconstruction_time_step e"
  let ?W = "\<lambda>u. wf_state e u \<and> 0 \<le> current_time_index u \<and>
      (curr_points u ! i \<noteq> None \<longleftrightarrow> in_window e (?tm (current_time_index u)) i) \<and>
      (point_has_been_activated u ! i \<longleftrightarrow>
         (\<exists>j. 0 \<le> j \<and> j \<le> current_time_index u \<and> in_window e (?tm j) i))"
  have "?W s" using run inside
  proof (induction k arbitrary: s)
    case 0
    then have s: "s = ?s0" by simp
    have b: "wf_state e ?s0" "current_time_index ?s0 = 0"
      "curr_points ?s0 ! i =
         (if in_window e (reconstruction_begin_time e) i then Some (points e ! i) else None)"
      "point_has_been_activated ?s0 ! i = in_window e (reconstruction_begin_time e) i"
      using begin_reconstruction_result [where lib = lib and e = e and ps = ps] i by simp_all
    have "(\<exists>j::int. 0 \<le> j \<and> j \<le> 0 \<and> in_window e (?tm j) i)
            \<longleftrightarrow> in_window e (reconstruction_begin_time e) i"
    proof
      assume "\<exists>j::int. 0 \<le> j \<and> j \<le> 0 \<and> in_window e (?tm j) i"
      then obtain j :: int where "0 \<le> j" "j \<le> 0" "in_window e (?tm j) i" by blast
      then show "in_window e (reconstruction_begin_time e) i" by (cases "j = 0") simp_all
    next
      assume "in_window e (reconstruction_begin_time e) i"
      then show "\<exists>j::int. 0 \<le> j \<and> j \<le> 0 \<and> in_window e (?tm j) i"
        by (intro exI [of _ 0]) simp
    qed
    then show ?case using b by (simp add: s)
  next
    case (Suc k)
    from Suc.prems(1) [unfolded steps_Suc_end] obtain u progress where
      u: "steps k lib e ?s0 = Inr u" and
      st: "reconstruct_to_next_time lib e u = Inr (progress, s)"
      by (auto split: sum.splits prod.splits)
    have "\<forall>j<k. \<forall>sj. steps j lib e ?s0 = Inr sj \<longrightarrow>
        curr_points sj ! i \<noteq> None \<longrightarrow> curr_topology_plate_ids sj ! i \<noteq> None"
      using Suc.prems(2) less_Suc_eq by blast
    then have W: "?W u" by (rule Suc.IH [OF u])
    show ?case
    proof (cases "finished e u")
      case True
      then have "s = u" using st reconstruct_to_next_time_finished [OF True, of lib] by simp
      then show ?thesis using W by simp
    next
      case False
      let ?c = "current_time_index u"
      define t where "t = get_current_time e u"
      define t' where "t' = get_current_time e u + reconstruction_time_step e"
      define moved where "moved = (\<lambda>i.
         (case curr_points u ! i of
            None \<Rightarrow> None
          | Some p \<Rightarrow>
              (case curr_topology_plate_ids u ! i of
                 None \<Rightarrow> next_points u ! i
               | Some plate_id \<Rightarrow> Some (rotate lib (rotation_model e t' plate_id t) p))))"
      define windowed where "windowed = (\<lambda>i.
         (case moved i of
            None \<Rightarrow> if \<not> point_has_been_activated u ! i \<and> in_window e t' i
                    then Some (points e ! i) else None
          | Some p \<Rightarrow> if in_window e t' i then Some p else None))"
      have wf: "wf_state e u" using W by simp
      let ?moved = "\<lambda>i.
         (case curr_points u ! i of
            None \<Rightarrow> None
          | Some p \<Rightarrow>
              (case curr_topology_plate_ids u ! i of
                 None \<Rightarrow> next_points u ! i
               | Some plate_id \<Rightarrow>
                   Some (rotate lib
                     (rotation_model e (get_current_time e u + reconstruction_time_step e)
                        plate_id (get_current_time e u)) p)))"
      let ?windowed = "\<lambda>i.
         (case ?moved i of
            None \<Rightarrow> if \<not> point_has_been_activated u ! i \<and>
                       in_window e (get_current_time e u + reconstruction_time_step e) i
                    then Some (points e ! i) else None
          | Some p \<Rightarrow> if in_window e (get_current_time e u + reconstruction_time_step e) i
                      then Some p else None)"
      obtain consumed where r: "wf_state e s" "current_time_index s = current_time_index u + 1"
        and empty: "detect_collisions e = None \<longrightarrow> consumed = []"
        and pt: "\<forall>i < num_points e.
          curr_points s ! i = (if i \<in> set consumed then None else ?windowed i) \<and>
          (i \<in> set consumed \<longrightarrow> ?windowed i \<noteq> None \<and> curr_points u ! i \<noteq> None) \<and>
          point_has_been_activated s ! i =
            (point_has_been_activated u ! i \<or>
             (?moved i = None \<and>
              in_window e (get_current_time e u + reconstruction_time_step e) i)) \<and>
          curr_resolved_plate_boundaries s ! i =
            (case ?windowed i of
               None \<Rightarrow> None
             | Some p \<Rightarrow> find_polygon lib p
                 (resolve_topologies lib (topology_features e) (rotation_model e)
                    (get_current_time e u + reconstruction_time_step e))) \<and>
          curr_topology_plate_ids s ! i =
            map_option (get_reconstruction_plate_id lib) (curr_resolved_plate_boundaries s ! i)"
        using step_result [OF wf False st]
        by (elim conjE exE) (rule that, assumption+)
      have "consumed = []" using empty none by simp
      then have cur: "curr_points s ! i = windowed i"
        and act: "point_has_been_activated s ! i =
            (point_has_been_activated u ! i \<or> (moved i = None \<and> in_window e t' i))"
        using pt i unfolding windowed_def moved_def t_def t'_def by simp_all
      have tc: "t = ?tm ?c" by (simp add: t_def get_current_time_def)
      have tn: "t' = ?tm (?c + 1)"
        by (simp add: t'_def get_current_time_def algebra_simps)
      have has_id: "curr_points u ! i \<noteq> None \<Longrightarrow> curr_topology_plate_ids u ! i \<noteq> None"
        using Suc.prems(2) u by blast
      have moved_iff: "moved i \<noteq> None \<longleftrightarrow> curr_points u ! i \<noteq> None"
        using has_id by (auto simp: moved_def split: option.splits)
      have Wc: "curr_points u ! i \<noteq> None \<longleftrightarrow> in_window e t i"
        and Wa: "point_has_been_activated u ! i \<longleftrightarrow>
                  (\<exists>j. 0 \<le> j \<and> j \<le> ?c \<and> in_window e (?tm j) i)"
        and c0: "0 \<le> ?c"
        using W tc by simp_all
      have no_return: "\<not> point_has_been_activated u ! i"
        if out: "\<not> in_window e t i" and again: "in_window e t' i"
      proof
        assume "point_has_been_activated u ! i"
        then obtain j where j: "0 \<le> j" "j \<le> ?c" "in_window e (?tm j) i" using Wa by blast
        have "in_window e (?tm ?c) i"
          using in_window_between [OF j(3) again [unfolded tn]]
            sample_time_between [of j ?c "?c + 1" "reconstruction_begin_time e"
              "reconstruction_time_step e"] j(2)
          by simp
        then show False using out tc by simp
      qed
      have new_cur: "curr_points s ! i \<noteq> None \<longleftrightarrow> in_window e t' i"
      proof (cases "curr_points u ! i")
        case None
        then have m: "moved i = None" using moved_iff by simp
        have "\<not> in_window e t i" using None Wc by simp
        then show ?thesis using no_return by (auto simp: cur windowed_def m)
      next
        case (Some p)
        then obtain q where "moved i = Some q" using moved_iff by auto
        then show ?thesis by (simp add: cur windowed_def)
      qed
      have new_act: "point_has_been_activated s ! i \<longleftrightarrow>
            (\<exists>j. 0 \<le> j \<and> j \<le> ?c + 1 \<and> in_window e (?tm j) i)"
      proof
        assume "point_has_been_activated s ! i"
        then consider "point_has_been_activated u ! i" | "in_window e t' i"
          using act by blast
        then show "\<exists>j. 0 \<le> j \<and> j \<le> ?c + 1 \<and> in_window e (?tm j) i"
        proof cases
          case 1
          then obtain j where "0 \<le> j" "j \<le> ?c" "in_window e (?tm j) i" using Wa by blast
          then show ?thesis by (intro exI [of _ j]) simp
        next
          case 2
          then show ?thesis using c0 tn by (intro exI [of _ "?c + 1"]) simp
        qed
      next
        assume "\<exists>j. 0 \<le> j \<and> j \<le> ?c + 1 \<and> in_window e (?tm j) i"
        then obtain j where j: "0 \<le> j" "j \<le> ?c + 1" "in_window e (?tm j) i" by blast
        show "point_has_been_activated s ! i"
        proof (cases "j \<le> ?c")
          case True
          then have "point_has_been_activated u ! i" using Wa j by blast
          then show ?thesis using act by simp
        next
          case False
          then have "j = ?c + 1" using j(2) by simp
          then have again: "in_window e t' i" using j(3) tn by simp
          show ?thesis
          proof (cases "curr_points u ! i")
            case None
            then have "moved i = None" using moved_iff by simp
            then show ?thesis using act again by simp
          next
            case (Some p)
            then have "in_window e (?tm ?c) i" using Wc tc by simp
            then have "point_has_been_activated u ! i" using Wa c0 by blast
            then show ?thesis using act by simp
          qed
        qed
      qed
      show ?thesis
        using r(1,2) c0 new_cur new_act tn by simp
    qed
  qed
  then show ?thesis by (simp add: get_current_time_def)
qed

end
